theory Spec2Isabelle
  imports Complex_Main "HOL-Library.Word" "HOL-Library.Log_Nat"
begin

section \<open>Binary64 arithmetic as far as the controller uses it\<close>

text \<open>
  The coefficients and the PWM scale of \<^verbatim>\<open>main.cpp\<close> are C++ \<^verbatim>\<open>double\<close>s. A finite
  double is modelled by the rational number it denotes, next to the two infinities and
  NaN. Every arithmetic result is rounded to the nearest representable value, ties to
  the even significand, with 53 bits of precision, the subnormal range (exponent floor
  \<open>-1074\<close>) and overflow to infinity. The sign of zero is not tracked: the program never
  divides by a computed zero other than in \<open>0 / 0\<close>, and comparisons and the cast to
  \<^verbatim>\<open>uint8_t\<close> do not see it.
\<close>

datatype double = Finite rat | PosInf | NegInf | NaN

text \<open>\<open>ilog2 x\<close> is the exponent \<open>e\<close> with \<open>2 powi e \<le> x < 2 powi (e + 1)\<close>, for \<open>0 < x\<close>.\<close>

definition ilog2 :: "rat \<Rightarrow> int" where
  "ilog2 x = (if 1 \<le> x then bitlen \<lfloor>x\<rfloor> - 1 else - bitlen (\<lceil>1 / x\<rceil> - 1))"

definition round_half_even :: "rat \<Rightarrow> int" where
  "round_half_even m =
     (let f = \<lfloor>m\<rfloor>; d = m - of_int f
      in if d < 1 / 2 then f
         else if 1 / 2 < d then f + 1
         else if even f then f else f + 1)"

text \<open>
  The magnitude \<open>a > 0\<close> rounded to 53 significant bits: \<open>q\<close> is the exponent of the
  last kept bit, never below that of the smallest subnormal.
\<close>

definition round_magnitude :: "rat \<Rightarrow> rat" where
  "round_magnitude a =
     (let q = max (ilog2 a - 52) (- 1074)
      in of_int (round_half_even (a / 2 powi q)) * 2 powi q)"

definition round_double :: "rat \<Rightarrow> double" where
  "round_double x =
     (if x = 0 then Finite 0
      else
        let y = round_magnitude \<bar>x\<bar>
        in if 2 ^ 1024 \<le> y then (if 0 < x then PosInf else NegInf)
           else Finite (sgn x * y))"

fun dmul :: "double \<Rightarrow> double \<Rightarrow> double" where
  "dmul (Finite a) (Finite b) = round_double (a * b)"
| "dmul NaN _ = NaN"
| "dmul _ NaN = NaN"
| "dmul (Finite a) PosInf = (if a = 0 then NaN else if 0 < a then PosInf else NegInf)"
| "dmul (Finite a) NegInf = (if a = 0 then NaN else if 0 < a then NegInf else PosInf)"
| "dmul PosInf (Finite b) = (if b = 0 then NaN else if 0 < b then PosInf else NegInf)"
| "dmul NegInf (Finite b) = (if b = 0 then NaN else if 0 < b then NegInf else PosInf)"
| "dmul PosInf PosInf = PosInf"
| "dmul PosInf NegInf = NegInf"
| "dmul NegInf PosInf = NegInf"
| "dmul NegInf NegInf = PosInf"

fun ddiv :: "double \<Rightarrow> double \<Rightarrow> double" where
  "ddiv (Finite a) (Finite b) =
     (if b = 0 then (if a = 0 then NaN else if 0 < a then PosInf else NegInf)
      else round_double (a / b))"
| "ddiv NaN _ = NaN"
| "ddiv _ NaN = NaN"
| "ddiv (Finite a) PosInf = Finite 0"
| "ddiv (Finite a) NegInf = Finite 0"
| "ddiv PosInf (Finite b) = (if 0 \<le> b then PosInf else NegInf)"
| "ddiv NegInf (Finite b) = (if 0 \<le> b then NegInf else PosInf)"
| "ddiv PosInf PosInf = NaN"
| "ddiv PosInf NegInf = NaN"
| "ddiv NegInf PosInf = NaN"
| "ddiv NegInf NegInf = NaN"

text \<open>\<^verbatim>\<open>operator<\<close> on doubles: false whenever an operand is NaN.\<close>

fun dless :: "double \<Rightarrow> double \<Rightarrow> bool" where
  "dless NaN _ = False"
| "dless _ NaN = False"
| "dless (Finite a) (Finite b) = (a < b)"
| "dless (Finite a) PosInf = True"
| "dless (Finite a) NegInf = False"
| "dless PosInf _ = False"
| "dless NegInf NegInf = False"
| "dless NegInf _ = True"

text \<open>
  \<^verbatim>\<open>static_cast<double>\<close> of an \<^verbatim>\<open>int\<close>. An \<^verbatim>\<open>int\<close> has 32 bits here, so the conversion
  is exact; the rounding is written out all the same.
\<close>

definition double_of_int :: "int \<Rightarrow> double" where
  "double_of_int i = round_double (of_int i)"

text \<open>
  \<^verbatim>\<open>static_cast<uint8_t>\<close> of a double truncates towards zero. C++ leaves the
  conversion undefined when the truncated value does not fit the target type, and for
  infinities and NaN: that is \<open>None\<close>.
\<close>

definition truncate_rat :: "rat \<Rightarrow> int" where
  "truncate_rat x = (if 0 \<le> x then \<lfloor>x\<rfloor> else \<lceil>x\<rceil>)"

fun uint8_of_double :: "double \<Rightarrow> 8 word option" where
  "uint8_of_double (Finite x) =
     (let t = truncate_rat x in if 0 \<le> t \<and> t \<le> 255 then Some (word_of_int t) else None)"
| "uint8_of_double _ = None"

section \<open>Paths, streams and the log\<close>

type_synonym path = string

text \<open>
  \<^verbatim>\<open>std::filesystem::path\<close> on a POSIX system: \<^verbatim>\<open>filename()\<close> is the text after the last
  separator, \<^verbatim>\<open>replace_filename(r)\<close> removes it and appends \<open>r\<close> (an absolute \<open>r\<close> would
  replace the whole path).
\<close>

definition filename :: "path \<Rightarrow> string" where
  "filename p = rev (takeWhile (\<lambda>c. c \<noteq> CHR ''/'') (rev p))"

definition remove_filename :: "path \<Rightarrow> path" where
  "remove_filename p = rev (dropWhile (\<lambda>c. c \<noteq> CHR ''/'') (rev p))"

definition replace_filename :: "path \<Rightarrow> string \<Rightarrow> path" where
  "replace_filename p r =
     (case r of
        [] \<Rightarrow> remove_filename p
      | c # cs \<Rightarrow> if c = CHR ''/'' then r else remove_filename p @ r)"

text \<open>\<^verbatim>\<open>operator<<\<close> for an \<^verbatim>\<open>int\<close>: its decimal digits, with a sign when negative.\<close>

definition digit_char :: "nat \<Rightarrow> char" where
  "digit_char n = ''0123456789'' ! n"

fun dec_nat :: "nat \<Rightarrow> string" where
  "dec_nat n = (if n < 10 then [digit_char n] else dec_nat (n div 10) @ [digit_char (n mod 10)])"

declare dec_nat.simps [simp del]

definition show_int :: "int \<Rightarrow> string" where
  "show_int i = (if i < 0 then CHR ''-'' # dec_nat (nat (- i)) else dec_nat (nat i))"

text \<open>Reading a decimal numeral back, to say what \<open>dec_nat\<close> prints.\<close>

definition digit_value :: "char \<Rightarrow> nat" where
  "digit_value c = of_char c - 48"

definition dec_value :: "string \<Rightarrow> nat" where
  "dec_value cs = foldl (\<lambda>a c. 10 * a + digit_value c) 0 cs"

definition is_digit :: "char \<Rightarrow> bool" where
  "is_digit c = (48 \<le> (of_char c :: nat) \<and> (of_char c :: nat) \<le> 57)"

type_synonym int32 = "32 word"
type_synonym source_ptr = nat
type_synonym fan_ptr = nat

record source =
  last_value :: "int32 option"

datatype level = Trace | Debug | Info | Warn | Critical

text \<open>One constructor for each \<^verbatim>\<open>SPDLOG_*\<close> call of the source, with its arguments.\<close>

datatype message =
    Last_value_is source_ptr "int32 option"
  | Get_threw source_ptr
  | Could_not_open path
  | Source_has_no_value fan_ptr source_ptr
  | Got_coefficients "double list"
  | Fan_set_to_pwm path int
  | Pwm_set_to "8 word"
  | Resetting_all_fans
  | Failed_to_reset_fan string
  | Signal_caught
  | Exception_caught string

type_synonym log_entry = "level \<times> message"

text \<open>
  The state the program acts on: the contents of the resources it writes, the texts it
  has written in order (\<open>written\<close>), the sensor objects by address, and the log.
\<close>

record world =
  files :: "path \<rightharpoonup> string"
  written :: "(path \<times> string) list"
  sources :: "source_ptr \<Rightarrow> source"
  log :: "log_entry list"

definition spdlog :: "level \<Rightarrow> message \<Rightarrow> world \<Rightarrow> world" where
  "spdlog l m w = w\<lparr>log := log w @ [(l, m)]\<rparr>"

text \<open>
  What the outside does to a stream: whether the resource opens for writing, and whether
  a write to the opened resource is accepted.
\<close>

record io_env =
  can_open :: "path \<Rightarrow> bool"
  can_write :: "path \<Rightarrow> bool"

text \<open>
  \<^verbatim>\<open>std::ofstream\<close>, as the program uses it: a stream is opened, one short text is inserted,
  and the stream is destroyed at the end of its scope without a flush or a close in
  between. Opening with \<^verbatim>\<open>std::ios::out\<close> truncates the resource. The stream is buffered: an
  insertion into an open stream goes to the buffer and leaves the stream good, whatever the
  resource would do with the text, and an insertion into a stream that did not open
  fails. The destructor writes the buffer to the resource; when the resource rejects that
  write the text is lost and nothing reports it. So \<^verbatim>\<open>!(f << x)\<close> holds exactly when the stream
  did not open.
\<close>

definition ofstream_open :: "io_env \<Rightarrow> path \<Rightarrow> world \<Rightarrow> bool \<times> world" where
  "ofstream_open env p w =
     (if can_open env p then (True, w\<lparr>files := (files w)(p \<mapsto> [])\<rparr>) else (False, w))"

definition ofstream_insert :: "bool \<Rightarrow> string \<Rightarrow> string \<Rightarrow> bool \<times> string" where
  "ofstream_insert is_open buf txt = (if is_open then (True, buf @ txt) else (False, buf))"

definition ofstream_destroy :: "io_env \<Rightarrow> path \<Rightarrow> bool \<Rightarrow> string \<Rightarrow> world \<Rightarrow> world" where
  "ofstream_destroy env p is_open buf w =
     (if is_open \<and> buf \<noteq> [] \<and> can_write env p
      then w\<lparr>files := (files w)(p \<mapsto> (case files w p of None \<Rightarrow> [] | Some c \<Rightarrow> c) @ buf),
             written := written w @ [(p, buf)]\<rparr>
      else w)"

section \<open>The sensor: \<^verbatim>\<open>source\<close>\<close>

text \<open>
  \<^verbatim>\<open>source::get()\<close> is virtual: it returns a reading or throws. \<^verbatim>\<open>source::update()\<close>
  stores the reading, and its \<^verbatim>\<open>catch (...)\<close> turns every exception into an empty
  \<^verbatim>\<open>last_value_\<close>; nothing is rethrown, so the model has no failure branch.
\<close>

datatype errc = Invalid_argument | Result_out_of_range

datatype get_exception = System_error errc

definition source_update :: "source_ptr \<Rightarrow> get_exception + int32 \<Rightarrow> world \<Rightarrow> world" where
  "source_update this got w =
     (case got of
        Inr v \<Rightarrow>
          spdlog Trace (Last_value_is this (Some v))
            (w\<lparr>sources := (sources w)(this := \<lparr>last_value = Some v\<rparr>)\<rparr>)
      | Inl e \<Rightarrow>
          spdlog Debug (Get_threw this)
            (w\<lparr>sources := (sources w)(this := \<lparr>last_value = None\<rparr>)\<rparr>))"

section \<open>The fan\<close>

record driver =
  src :: source_ptr
  min_thr :: int32
  max_thr :: int32

text \<open>
  \<^verbatim>\<open>accum_fn_t\<close> is a function pointer: \<open>None\<close> is the null pointer. The function it
  points to returns \<open>None\<close> where its C++ body has no defined result.
\<close>

type_synonym accum_fn_t = "(double list \<Rightarrow> double option) option"

record fan =
  pwm :: path
  pwm_min :: "8 word"
  pwm_max :: "8 word"
  accum_fn :: accum_fn_t
  drivers :: "driver list"

datatype abort = Assertion_failed string

text \<open>The constructor; \<^verbatim>\<open>assert\<close> is taken as compiled in.\<close>

definition fan_fan :: "path \<Rightarrow> 8 word \<Rightarrow> 8 word \<Rightarrow> accum_fn_t \<Rightarrow> abort + fan" where
  "fan_fan p p_min p_max acc_fn =
     (if \<not> p_max > p_min then Inl (Assertion_failed ''pwm_max > pwm_min'')
      else if acc_fn = None then Inl (Assertion_failed ''acc_fn'')
      else Inr \<lparr>pwm = p, pwm_min = p_min, pwm_max = p_max, accum_fn = acc_fn, drivers = []\<rparr>)"

definition name :: "fan \<Rightarrow> string" where
  "name f = pwm f"

definition add_driver :: "fan \<Rightarrow> source_ptr \<Rightarrow> int32 \<Rightarrow> int32 \<Rightarrow> fan" where
  "add_driver f s mn mx = f\<lparr>drivers := drivers f @ [\<lparr>src = s, min_thr = mn, max_thr = mx\<rparr>]\<rparr>"

datatype fan_exception = Reset_failed fan_ptr | Set_pwm_failed fan_ptr "8 word"

fun what :: "fan_exception \<Rightarrow> string" where
  "what (Reset_failed f) = ''Failed to set fan to manual mode''"
| "what (Set_pwm_failed f v) = ''Failed to set PWM value''"

fun exception_fan :: "fan_exception \<Rightarrow> fan_ptr" where
  "exception_fan (Reset_failed f) = f"
| "exception_fan (Set_pwm_failed f v) = f"

text \<open>
  A call either returns the new state, or leaves with an exception or with behaviour
  that C++ does not define; the state at that point comes with it.
\<close>

datatype failure = Thrown fan_exception | Undefined_behaviour

type_synonym result = "failure \<times> world + world"

text \<open>
  \<^verbatim>\<open>set_pwm\<close>: the stream lives until the function is left, by the \<^verbatim>\<open>throw\<close> or after the
  trace message.
\<close>

definition set_pwm :: "fan_ptr \<Rightarrow> fan \<Rightarrow> 8 word \<Rightarrow> io_env \<Rightarrow> world \<Rightarrow> result" where
  "set_pwm this f v env w =
     (let (is_open, w1) = ofstream_open env (pwm f) w;
          (ok, buf) = ofstream_insert is_open [] (show_int (uint v))
      in if \<not> ok
         then Inl (Thrown (Set_pwm_failed this v), ofstream_destroy env (pwm f) is_open buf w1)
         else Inr (ofstream_destroy env (pwm f) is_open buf (spdlog Trace (Pwm_set_to v) w1)))"

definition enable_path :: "fan \<Rightarrow> path" where
  "enable_path f = replace_filename (pwm f) (filename (pwm f) @ ''_enable'')"

text \<open>
  \<^verbatim>\<open>reset\<close>: the stream on the enable resource lives in the inner block, so it is destroyed
  before \<^verbatim>\<open>set_pwm(255)\<close> is called, or by the \<^verbatim>\<open>throw\<close>.
\<close>

definition reset :: "fan_ptr \<Rightarrow> fan \<Rightarrow> io_env \<Rightarrow> world \<Rightarrow> result" where
  "reset this f env w =
     (let (is_open, w1) = ofstream_open env (enable_path f) w
      in if is_open
         then
           (let (ok, buf) = ofstream_insert is_open [] ''1''
            in if \<not> ok
               then Inl (Thrown (Reset_failed this),
                         ofstream_destroy env (enable_path f) is_open buf w1)
               else set_pwm this f 255 env (ofstream_destroy env (enable_path f) is_open buf w1))
         else
           set_pwm this f 255 env
             (ofstream_destroy env (enable_path f) is_open []
                (spdlog Debug (Could_not_open (enable_path f)) w1)))"

datatype bad_optional_access = Bad_optional_access

text \<open>
  \<^verbatim>\<open>driver::get_coeff\<close>. The comparisons and the two subtractions are on \<^verbatim>\<open>int32_t\<close>:
  signed, 32 bits. A difference that does not fit wraps around, as two's complement
  hardware does; C++ itself leaves that case undefined.
\<close>

definition get_coeff :: "driver \<Rightarrow> world \<Rightarrow> bad_optional_access + double" where
  "get_coeff d w =
     (case last_value (sources w (src d)) of
        None \<Rightarrow> Inl Bad_optional_access
      | Some v \<Rightarrow>
          if sint v < sint (min_thr d) then Inr (Finite 0)
          else if sint v > sint (max_thr d) then Inr (Finite 1)
          else
            let range = max_thr d - min_thr d;
                scaled = v - min_thr d
            in Inr (ddiv (double_of_int (sint scaled)) (double_of_int (sint range))))"

text \<open>
  The loop of \<^verbatim>\<open>fan::update\<close> over the drivers: the coefficients so far are in \<open>vals\<close>;
  the first driver without a reading ends it with that driver's sensor.
\<close>

fun coefficients :: "driver list \<Rightarrow> world \<Rightarrow> double list \<Rightarrow> source_ptr + double list" where
  "coefficients [] w vals = Inr vals"
| "coefficients (d # ds) w vals =
     (case get_coeff d w of
        Inl e \<Rightarrow> Inl (src d)
      | Inr c \<Rightarrow> coefficients ds w (vals @ [c]))"

definition update :: "fan_ptr \<Rightarrow> fan \<Rightarrow> io_env \<Rightarrow> world \<Rightarrow> result" where
  "update this f env w =
     (case coefficients (drivers f) w [] of
        Inl s \<Rightarrow> Inr (spdlog Warn (Source_has_no_value this s) w)
      | Inr vals \<Rightarrow>
          let w1 = spdlog Trace (Got_coefficients vals) w
          in case accum_fn f of
               None \<Rightarrow> Inl (Undefined_behaviour, w1)
             | Some fn \<Rightarrow>
                 (case fn vals of
                    None \<Rightarrow> Inl (Undefined_behaviour, w1)
                  | Some pwm_scale \<Rightarrow>
                      let pwm_range = uint (pwm_max f) - uint (pwm_min f)
                      in case uint8_of_double (dmul (double_of_int pwm_range) pwm_scale) of
                           None \<Rightarrow> Inl (Undefined_behaviour, w1)
                         | Some c \<Rightarrow>
                             let final_pwm = uint (pwm_min f) + uint c
                             in case set_pwm this f (word_of_int final_pwm) env w1 of
                                  Inl e \<Rightarrow> Inl e
                                | Inr w2 \<Rightarrow>
                                    Inr (spdlog Info (Fan_set_to_pwm (pwm f) final_pwm) w2)))"

section \<open>The reset pass, the control loop and \<^verbatim>\<open>main\<close>\<close>

text \<open>
  \<^verbatim>\<open>reset_fans\<close>: the fans of the span in order, a fan's address being its index. An
  exception of \<^verbatim>\<open>reset()\<close> is logged and rethrown, which ends the pass.
\<close>

fun reset_fans_loop :: "fan list \<Rightarrow> fan_ptr list \<Rightarrow> io_env \<Rightarrow> world \<Rightarrow> result" where
  "reset_fans_loop fans [] env w = Inr w"
| "reset_fans_loop fans (p # ps) env w =
     (case reset p (fans ! p) env w of
        Inl (Thrown fex, w1) \<Rightarrow>
          Inl (Thrown fex,
               spdlog Critical (Failed_to_reset_fan (name (fans ! exception_fan fex))) w1)
      | Inl (Undefined_behaviour, w1) \<Rightarrow> Inl (Undefined_behaviour, w1)
      | Inr w1 \<Rightarrow> reset_fans_loop fans ps env w1)"

definition reset_fans :: "fan list \<Rightarrow> io_env \<Rightarrow> world \<Rightarrow> result" where
  "reset_fans fans env w =
     reset_fans_loop fans [0..<length fans] env (spdlog Info Resetting_all_fans w)"

text \<open>
  What the outside does during a run: the behaviour of the resources in the first reset
  pass, in each iteration of the loop and in the last reset pass; what \<^verbatim>\<open>get()\<close> of each
  sensor does in each iteration; and the value of \<^verbatim>\<open>g_signal_caught\<close> each time the loop
  condition reads it.
\<close>

record env =
  io_initial :: io_env
  io_loop :: "nat \<Rightarrow> io_env"
  io_final :: io_env
  get :: "nat \<Rightarrow> source_ptr \<Rightarrow> get_exception + int32"
  g_signal_caught :: "nat \<Rightarrow> bool"

fun update_sources ::
  "(source_ptr \<Rightarrow> get_exception + int32) \<Rightarrow> source_ptr list \<Rightarrow> world \<Rightarrow> world" where
  "update_sources g [] w = w"
| "update_sources g (s # ss) w = update_sources g ss (source_update s (g s) w)"

fun update_fans :: "fan list \<Rightarrow> fan_ptr list \<Rightarrow> io_env \<Rightarrow> world \<Rightarrow> result" where
  "update_fans fans [] env w = Inr w"
| "update_fans fans (p # ps) env w =
     (case update p (fans ! p) env w of
        Inl x \<Rightarrow> Inl x
      | Inr w1 \<Rightarrow> update_fans fans ps env w1)"

text \<open>\<^verbatim>\<open>interruptible_sleep\<close> only lets time pass, and time is not part of the state.\<close>

definition interruptible_sleep :: "world \<Rightarrow> world" where
  "interruptible_sleep w = w"

text \<open>
  \<^verbatim>\<open>main_loop\<close>, entered for the \<open>k\<close>-th time. The loop runs for as long as the flag reads
  false, so the function is partial: \<open>None\<close> is a run that never leaves the loop.
\<close>

partial_function (option) main_loop ::
  "env \<Rightarrow> source_ptr list \<Rightarrow> fan list \<Rightarrow> nat \<Rightarrow> world \<Rightarrow> result option" where
  "main_loop e srcs fans k w =
     (if g_signal_caught e k then Some (Inr w)
      else
        case update_fans fans [0..<length fans] (io_loop e k)
               (update_sources (get e k) srcs w) of
          Inl x \<Rightarrow> Some (Inl x)
        | Inr w1 \<Rightarrow> main_loop e srcs fans (Suc k) (interruptible_sleep w1))"

declare main_loop.simps [code]

text \<open>
  The accumulation function of \<^verbatim>\<open>main\<close>, \<^verbatim>\<open>*std::max_element(vals.begin(), vals.end())\<close>:
  the first of the largest elements; on an empty span it dereferences \<^verbatim>\<open>end()\<close>.
\<close>

fun max_element_from :: "double \<Rightarrow> double list \<Rightarrow> double" where
  "max_element_from largest [] = largest"
| "max_element_from largest (x # xs) =
     max_element_from (if dless largest x then x else largest) xs"

definition max_element :: "double list \<Rightarrow> double option" where
  "max_element vals = (case vals of [] \<Rightarrow> None | x # xs \<Rightarrow> Some (max_element_from x xs))"

text \<open>
  How the process ends: \<^verbatim>\<open>main\<close> returns, an exception leaves \<^verbatim>\<open>main\<close> and
  \<^verbatim>\<open>std::terminate\<close> aborts the process, an assertion aborts it, or its behaviour is
  undefined.
\<close>

datatype outcome = Returned int | Terminate fan_exception | Aborted abort | Undefined

text \<open>
  The exit status a parent process sees: the value \<^verbatim>\<open>main\<close> returned, or \<open>134\<close> for a
  process killed by \<^verbatim>\<open>SIGABRT\<close>. Undefined behaviour has none.
\<close>

fun exit_status :: "outcome \<Rightarrow> int option" where
  "exit_status (Returned rv) = Some rv"
| "exit_status (Terminate ex) = Some 134"
| "exit_status (Aborted a) = Some 134"
| "exit_status Undefined = None"

text \<open>The statements of the \<^verbatim>\<open>try\<close> block.\<close>

definition try_block :: "env \<Rightarrow> source_ptr list \<Rightarrow> fan list \<Rightarrow> world \<Rightarrow> result option" where
  "try_block e srcs fans w =
     (case reset_fans fans (io_initial e) w of
        Inl x \<Rightarrow> Some (Inl x)
      | Inr w1 \<Rightarrow>
          (case main_loop e srcs fans 0 w1 of
             None \<Rightarrow> None
           | Some (Inl x) \<Rightarrow> Some (Inl x)
           | Some (Inr w2) \<Rightarrow> Some (Inr (spdlog Info Signal_caught w2))))"

text \<open>
  The end of \<^verbatim>\<open>main\<close>, after the \<^verbatim>\<open>try\<close> statement: the last reset pass, outside any handler,
  and \<^verbatim>\<open>return rv\<close>.
\<close>

definition reset_and_return ::
  "env \<Rightarrow> fan list \<Rightarrow> int \<Rightarrow> world \<Rightarrow> (outcome \<times> world) option" where
  "reset_and_return e fans rv w =
     (case reset_fans fans (io_final e) w of
        Inl (Thrown ex, w1) \<Rightarrow> Some (Terminate ex, w1)
      | Inl (Undefined_behaviour, w1) \<Rightarrow> Some (Undefined, w1)
      | Inr w1 \<Rightarrow> Some (Returned rv, w1))"

text \<open>
  \<^verbatim>\<open>main\<close> from \<^verbatim>\<open>int rv = 0\<close> on: the \<^verbatim>\<open>try\<close> block, whose exceptions the handler logs,
  setting \<open>rv\<close> to \<open>1\<close>, and then the end of \<^verbatim>\<open>main\<close>.
\<close>

definition main_body ::
  "env \<Rightarrow> source_ptr list \<Rightarrow> fan list \<Rightarrow> world \<Rightarrow> (outcome \<times> world) option" where
  "main_body e srcs fans w =
     (case try_block e srcs fans w of
        None \<Rightarrow> None
      | Some (Inl (Undefined_behaviour, w1)) \<Rightarrow> Some (Undefined, w1)
      | Some (Inl (Thrown ex, w1)) \<Rightarrow>
          reset_and_return e fans 1 (spdlog Warn (Exception_caught (what ex)) w1)
      | Some (Inr w2) \<Rightarrow> reset_and_return e fans 0 w2)"

definition cpu_source :: source_ptr where
  "cpu_source = 0"

definition hdd_source :: source_ptr where
  "hdd_source = 1"

text \<open>The two \<^verbatim>\<open>file_source\<close> objects of \<^verbatim>\<open>main\<close>, newly constructed: neither holds a reading.\<close>

definition construct_sources :: "world \<Rightarrow> world" where
  "construct_sources w =
     w\<lparr>sources := (sources w)
          (cpu_source := \<lparr>last_value = None\<rparr>, hdd_source := \<lparr>last_value = None\<rparr>)\<rparr>"

text \<open>
  \<^verbatim>\<open>main\<close>. Loading the log levels and installing \<^verbatim>\<open>on_signal\<close> have no counterpart here: what
  the handler does is the flag that the environment supplies.
\<close>

definition main :: "env \<Rightarrow> world \<Rightarrow> (outcome \<times> world) option" where
  "main e w =
     (let w0 = construct_sources w
      in case fan_fan ''/sys/devices/platform/nct6775.672/hwmon/hwmon2/pwm2'' 60 240
                (Some max_element) of
           Inl a \<Rightarrow> Some (Aborted a, w0)
         | Inr f \<Rightarrow>
             let fans = [add_driver (add_driver f cpu_source 60000 80000) hdd_source 42000 50000];
                 srcs = [cpu_source, hdd_source]
             in main_body e srcs fans w0)"

section \<open>Scenarios\<close>

text \<open>
  The fan of \<^verbatim>\<open>main\<close> with its two drivers, and the states and resource behaviours at
  which the theorems below are instantiated.
\<close>

definition main_fan :: fan where
  "main_fan =
     \<lparr>pwm = ''/sys/devices/platform/nct6775.672/hwmon/hwmon2/pwm2'',
      pwm_min = 60, pwm_max = 240, accum_fn = Some max_element,
      drivers = [\<lparr>src = cpu_source, min_thr = 60000, max_thr = 80000\<rparr>,
                 \<lparr>src = hdd_source, min_thr = 42000, max_thr = 50000\<rparr>]\<rparr>"

text \<open>The fan of the specification's scenario: one driver, on the CPU sensor.\<close>

definition single_driver_fan :: fan where
  "single_driver_fan = main_fan\<lparr>drivers := [\<lparr>src = cpu_source, min_thr = 60000, max_thr = 80000\<rparr>]\<rparr>"

text \<open>A state with nothing written and nothing logged, the two sensors holding \<open>cpu\<close> and \<open>hdd\<close>.\<close>

definition readings :: "int32 option \<Rightarrow> int32 option \<Rightarrow> world" where
  "readings cpu hdd =
     \<lparr>files = Map.empty, written = [],
      sources = (\<lambda>p. \<lparr>last_value = (if p = cpu_source then cpu
                                      else if p = hdd_source then hdd else None)\<rparr>),
      log = []\<rparr>"

definition all_ok :: io_env where
  "all_ok = \<lparr>can_open = (\<lambda>p. True), can_write = (\<lambda>p. True)\<rparr>"

definition enable_write_fails :: io_env where
  "enable_write_fails =
     \<lparr>can_open = (\<lambda>p. True),
      can_write = (\<lambda>p. p \<noteq> ''/sys/devices/platform/nct6775.672/hwmon/hwmon2/pwm2_enable'')\<rparr>"

definition pwm_write_fails :: io_env where
  "pwm_write_fails =
     \<lparr>can_open = (\<lambda>p. True),
      can_write = (\<lambda>p. p \<noteq> ''/sys/devices/platform/nct6775.672/hwmon/hwmon2/pwm2'')\<rparr>"

definition pwm_open_fails :: io_env where
  "pwm_open_fails =
     \<lparr>can_open = (\<lambda>p. p \<noteq> ''/sys/devices/platform/nct6775.672/hwmon/hwmon2/pwm2''),
      can_write = (\<lambda>p. True)\<rparr>"

definition nothing_written :: io_env where
  "nothing_written = \<lparr>can_open = (\<lambda>p. True), can_write = (\<lambda>p. False)\<rparr>"

text \<open>
  Three runs of the program. In each the sensors read 70000 and 43000 and the flag is
  found set when the loop condition is read for the second time. In \<open>clean_run\<close> every
  resource works; in \<open>failing_run\<close> the actuator does not open inside the loop; in
  \<open>stuck_run\<close> it does not open in the last reset pass either.
\<close>

definition clean_run :: env where
  "clean_run =
     \<lparr>io_initial = all_ok, io_loop = (\<lambda>k. all_ok), io_final = all_ok,
      get = (\<lambda>k s. if s = cpu_source then Inr 70000 else Inr 43000),
      g_signal_caught = (\<lambda>k. 1 \<le> k)\<rparr>"

definition failing_run :: env where
  "failing_run = clean_run\<lparr>io_loop := (\<lambda>k. pwm_open_fails)\<rparr>"

definition stuck_run :: env where
  "stuck_run = failing_run\<lparr>io_final := pwm_open_fails\<rparr>"

text \<open>A coefficient in the closed unit interval, and thresholds whose difference fits \<^verbatim>\<open>int32_t\<close>.\<close>

definition unit_coeff :: "double \<Rightarrow> bool" where
  "unit_coeff x = (\<exists>y. x = Finite y \<and> 0 \<le> y \<and> y \<le> 1)"

definition thresholds_fit :: "driver \<Rightarrow> bool" where
  "thresholds_fit d =
     (sint (min_thr d) < sint (max_thr d) \<and> sint (max_thr d) - sint (min_thr d) < 2 ^ 31)"

text \<open>The state a call ends in, whether it returns or not.\<close>

fun final_world :: "result \<Rightarrow> world" where
  "final_world (Inl (x, w)) = w"
| "final_world (Inr w) = w"

section \<open>Rounding stays within integer bounds\<close>

text \<open>
  Rounding to nearest never crosses an integer that is itself representable: a value
  between two integers below \<open>2 ^ 53\<close> is rounded to a double between them. Everything the
  controller needs from binary64 follows from this: integers up to \<open>2 ^ 53\<close> convert
  exactly, a quotient \<open>a / b\<close> with \<open>0 \<le> a \<le> b\<close> stays in the unit interval, and the product
  of a range with a scale in the unit interval stays within the range.
\<close>

lemma ilog2_lower:
  assumes "0 < x"
  shows "2 powi (ilog2 x) \<le> x"
proof (cases "1 \<le> x")
  case True
  then have pos: "0 < \<lfloor>x\<rfloor>" by linarith
  have e: "0 \<le> bitlen \<lfloor>x\<rfloor> - 1"
    using pos by (simp add: bitlen_alt_def)
  have "(2::int) ^ nat (bitlen \<lfloor>x\<rfloor> - 1) \<le> \<lfloor>x\<rfloor>"
    using bitlen_bounds [OF pos] by simp
  then have "(of_int ((2::int) ^ nat (bitlen \<lfloor>x\<rfloor> - 1)) :: rat) \<le> of_int \<lfloor>x\<rfloor>"
    by (simp only: of_int_le_iff)
  also have "\<dots> \<le> x" by (rule of_int_floor_le)
  finally have "(2::rat) ^ nat (bitlen \<lfloor>x\<rfloor> - 1) \<le> x"
    by simp
  then show ?thesis
    using True e by (simp add: ilog2_def power_int_def)
next
  case False
  define n where "n = \<lceil>1 / x\<rceil> - 1"
  define b where "b = bitlen n"
  have "1 < 1 / x" using False assms by (simp add: field_simps)
  then have npos: "0 < n" unfolding n_def by linarith
  have b0: "0 \<le> b" by (simp add: b_def bitlen_nonneg)
  have "n < 2 ^ nat b" using bitlen_bounds [OF npos] by (simp add: b_def)
  then have "\<lceil>1 / x\<rceil> \<le> 2 ^ nat b" by (simp add: n_def)
  then have "(of_int \<lceil>1 / x\<rceil> :: rat) \<le> of_int (2 ^ nat b)" by (simp only: of_int_le_iff)
  then have "(of_int \<lceil>1 / x\<rceil> :: rat) \<le> 2 ^ nat b" by simp
  moreover have "1 / x \<le> of_int \<lceil>1 / x\<rceil>" by (rule le_of_int_ceiling)
  ultimately have "1 / x \<le> 2 ^ nat b" by (rule order_trans [rotated])
  then have "1 / 2 ^ nat b \<le> x" using assms by (simp add: field_simps)
  moreover have "ilog2 x = - b" using False by (simp add: ilog2_def b_def n_def)
  moreover have "(2::rat) powi (- b) = 1 / 2 ^ nat b"
    using b0 by (simp add: power_int_minus_divide power_int_nonneg_exp)
  ultimately show ?thesis by simp
qed

lemma ilog2_upper:
  assumes "0 < x"
  shows "x < 2 powi (ilog2 x + 1)"
proof (cases "1 \<le> x")
  case True
  then have pos: "0 < \<lfloor>x\<rfloor>" by linarith
  have e: "0 \<le> bitlen \<lfloor>x\<rfloor> - 1"
    using pos by (simp add: bitlen_alt_def)
  have "\<lfloor>x\<rfloor> + 1 \<le> 2 ^ nat (bitlen \<lfloor>x\<rfloor>)"
    using bitlen_bounds [OF pos] by simp
  then have "(of_int (\<lfloor>x\<rfloor> + 1) :: rat) \<le> of_int (2 ^ nat (bitlen \<lfloor>x\<rfloor>))"
    by (simp only: of_int_le_iff)
  moreover have "x < of_int (\<lfloor>x\<rfloor> + 1)" by linarith
  ultimately have "x < 2 ^ nat (bitlen \<lfloor>x\<rfloor>)" by simp
  moreover have "ilog2 x + 1 = bitlen \<lfloor>x\<rfloor>" using True by (simp add: ilog2_def)
  ultimately show ?thesis using e by (simp add: power_int_def)
next
  case False
  define n where "n = \<lceil>1 / x\<rceil> - 1"
  define b where "b = bitlen n"
  have "1 < 1 / x" using False assms by (simp add: field_simps)
  then have npos: "0 < n" unfolding n_def by linarith
  have b1: "0 \<le> b - 1" using npos by (simp add: b_def bitlen_alt_def)
  have "2 ^ nat (b - 1) \<le> n" using bitlen_bounds [OF npos] by (simp add: b_def)
  then have "(of_int (2 ^ nat (b - 1)) :: rat) \<le> of_int n" by (simp only: of_int_le_iff)
  then have "(2::rat) ^ nat (b - 1) \<le> of_int n" by simp
  moreover have "of_int n < 1 / x" unfolding n_def by linarith
  ultimately have "2 ^ nat (b - 1) < 1 / x" by (rule le_less_trans)
  then have "x < 1 / 2 ^ nat (b - 1)" using assms by (simp add: field_simps)
  moreover have "ilog2 x + 1 = - (b - 1)" using False by (simp add: ilog2_def b_def n_def)
  moreover have "(2::rat) powi (- (b - 1)) = 1 / 2 ^ nat (b - 1)"
    using b1 by (simp only: power_int_minus_divide power_int_nonneg_exp)
  ultimately show ?thesis by simp
qed

lemma round_half_even_le:
  assumes "m \<le> of_int k"
  shows "round_half_even m \<le> k"
proof (cases "m = of_int k")
  case True then show ?thesis by (simp add: round_half_even_def)
next
  case False
  with assms have "m < of_int k" by simp
  then have "\<lfloor>m\<rfloor> < k" by (simp add: floor_less_iff)
  then show ?thesis by (simp add: round_half_even_def Let_def)
qed

lemma round_half_even_ge:
  assumes "of_int k \<le> m"
  shows "k \<le> round_half_even m"
proof -
  have "k \<le> \<lfloor>m\<rfloor>" using assms by (simp add: le_floor_iff)
  then show ?thesis by (simp add: round_half_even_def Let_def)
qed

lemma round_magnitude_between:
  assumes pos: "0 < x" and lo: "of_int lo \<le> x" and hi: "x \<le> of_int hi" and small: "hi < 2 ^ 53"
  shows "of_int lo \<le> round_magnitude x \<and> round_magnitude x \<le> of_int hi"
proof -
  define q where "q = max (ilog2 x - 52) (- 1074)"
  define s :: int where "s = 2 ^ nat (- q)"
  have "(of_int hi :: rat) < of_int (2 ^ 53)" using small by (simp only: of_int_less_iff)
  then have "(2::rat) powi ilog2 x < 2 powi 53"
    using ilog2_lower [OF pos] hi by simp
  then have "ilog2 x < 53"
    using power_int_increasing [of 53 "ilog2 x" "2::rat"] by (cases "ilog2 x < 53") auto
  then have q0: "q \<le> 0" by (simp add: q_def)
  have spos: "0 < s" by (simp add: s_def)
  have pq: "(2::rat) powi q = 1 / of_int s"
    using q0 power_int_minus_divide [of "2::rat" "- q"] by (simp add: s_def power_int_nonneg_exp)
  have m: "x / 2 powi q = x * of_int s" by (simp add: pq)
  have "x * of_int s \<le> of_int (hi * s)"
    using hi spos by (simp add: mult_right_mono)
  then have up: "round_half_even (x * of_int s) \<le> hi * s" by (rule round_half_even_le)
  have "of_int (lo * s) \<le> x * of_int s"
    using lo spos by (simp add: mult_right_mono)
  then have down: "lo * s \<le> round_half_even (x * of_int s)" by (rule round_half_even_ge)
  have rm: "round_magnitude x = of_int (round_half_even (x * of_int s)) / of_int s"
    by (simp add: round_magnitude_def Let_def q_def [symmetric] m pq)
  have "(of_int (lo * s) :: rat) \<le> of_int (round_half_even (x * of_int s))"
    using down by (simp only: of_int_le_iff)
  then have a: "of_int lo \<le> round_magnitude x"
    using spos by (simp add: rm pos_le_divide_eq)
  have "(of_int (round_half_even (x * of_int s)) :: rat) \<le> of_int (hi * s)"
    using up by (simp only: of_int_le_iff)
  then have b: "round_magnitude x \<le> of_int hi"
    using spos by (simp add: rm pos_divide_le_eq)
  from a b show ?thesis ..
qed

lemma round_double_between:
  assumes "0 \<le> lo" and lo: "of_int lo \<le> x" and hi: "x \<le> of_int hi" and small: "hi < 2 ^ 53"
  shows "\<exists>y. round_double x = Finite y \<and> of_int lo \<le> y \<and> y \<le> of_int hi"
proof (cases "x = 0")
  case True
  then show ?thesis using lo hi by (simp add: round_double_def)
next
  case False
  have "(0::rat) \<le> of_int lo" using assms(1) by simp
  with lo False have pos: "0 < x" by simp
  have b: "of_int lo \<le> round_magnitude x \<and> round_magnitude x \<le> of_int hi"
    by (rule round_magnitude_between [OF pos lo hi small])
  have "(of_int hi :: rat) < of_int (2 ^ 53)" using small by (simp only: of_int_less_iff)
  then have "round_magnitude x < 2 ^ 53" using b by simp
  also have "(2::rat) ^ 53 < 2 ^ 1024" by (rule power_strict_increasing) simp_all
  finally have "\<not> 2 ^ 1024 \<le> round_magnitude x" by simp
  then show ?thesis using pos b by (simp add: round_double_def Let_def)
qed

lemma round_double_of_int:
  assumes "\<bar>i\<bar> < 2 ^ 53"
  shows "round_double (of_int i) = Finite (of_int i)"
proof (cases "i = 0")
  case True then show ?thesis by (simp add: round_double_def)
next
  case False
  then have pos: "(0::rat) < of_int \<bar>i\<bar>" by simp
  have b: "of_int \<bar>i\<bar> \<le> round_magnitude (of_int \<bar>i\<bar>) \<and> round_magnitude (of_int \<bar>i\<bar>) \<le> of_int \<bar>i\<bar>"
    by (rule round_magnitude_between [OF pos order_refl order_refl assms])
  then have eq: "round_magnitude (of_int \<bar>i\<bar>) = of_int \<bar>i\<bar>" by simp
  have "(of_int \<bar>i\<bar> :: rat) < of_int (2 ^ 53)" using assms by (simp only: of_int_less_iff)
  then have "(of_int \<bar>i\<bar> :: rat) < 2 ^ 53" by simp
  also have "(2::rat) ^ 53 < 2 ^ 1024" by (rule power_strict_increasing) simp_all
  finally have no: "\<not> (2::rat) ^ 1024 \<le> of_int \<bar>i\<bar>" by simp
  have abs: "\<bar>of_int i :: rat\<bar> = of_int \<bar>i\<bar>" by simp
  have sg: "sgn (of_int i :: rat) * of_int \<bar>i\<bar> = of_int i"
    by (cases "0 < i") (use False in \<open>auto simp: sgn_if\<close>)
  show ?thesis
    using False no by (simp only: round_double_def Let_def abs eq sg of_int_eq_0_iff if_False)
qed

lemma double_of_int_exact: "\<bar>i\<bar> < 2 ^ 53 \<Longrightarrow> double_of_int i = Finite (of_int i)"
  by (simp add: double_of_int_def round_double_of_int)

lemma round_double_0: "round_double 0 = Finite 0"
  by (simp add: round_double_def)

lemma round_double_1: "round_double 1 = Finite 1"
  using round_double_of_int [of 1] by simp

lemma ddiv_unit:
  assumes "0 \<le> a" "a \<le> b" "0 < b"
  shows "\<exists>y. ddiv (Finite (of_int a)) (Finite (of_int b)) = Finite y \<and> 0 \<le> y \<and> y \<le> 1"
proof -
  have "(of_int a :: rat) \<le> of_int b" "(0::rat) \<le> of_int a" "(0::rat) < of_int b"
    using assms by simp_all
  then have q: "0 \<le> (of_int a / of_int b :: rat)" "(of_int a / of_int b :: rat) \<le> 1"
    by (simp_all add: divide_le_eq_1)
  have "\<exists>y. round_double (of_int a / of_int b) = Finite y \<and> of_int 0 \<le> y \<and> y \<le> of_int 1"
    by (rule round_double_between) (use q in simp_all)
  then show ?thesis using assms by simp
qed

lemma dmul_scale:
  assumes "0 \<le> s" "s \<le> 1" "0 \<le> r" "r < 2 ^ 53"
  shows "\<exists>y. dmul (double_of_int r) (Finite s) = Finite y \<and> 0 \<le> y \<and> y \<le> of_int r \<and>
           (s = 0 \<longrightarrow> y = 0) \<and> (s = 1 \<longrightarrow> y = of_int r)"
proof -
  have r: "double_of_int r = Finite (of_int r)"
    using assms by (simp add: double_of_int_exact)
  have "(0::rat) \<le> of_int r" using assms by simp
  then have p: "of_int 0 \<le> of_int r * s" "of_int r * s \<le> of_int r"
    using assms by (simp_all add: mult_left_le)
  have "\<exists>y. round_double (of_int r * s) = Finite y \<and> of_int 0 \<le> y \<and> y \<le> of_int r"
    by (rule round_double_between [OF _ p]) (use assms in simp_all)
  then obtain y where y: "round_double (of_int r * s) = Finite y" "0 \<le> y" "y \<le> of_int r"
    by auto
  have z: "s = 0 \<Longrightarrow> y = 0" using y(1) by (simp add: round_double_0)
  have o: "s = 1 \<Longrightarrow> y = of_int r"
    using y(1) round_double_of_int [of r] assms by simp
  show ?thesis using y z o by (simp add: r)
qed

lemma round_double_half: "round_double (1 / 2) = Finite (1 / 2)"
  by code_simp

text \<open>
  The scale and its product with the range are doubles, and the product is rounded like
  any other result: for the range \<open>3\<close> and the scale nearest to a third, which is below a
  third, the double product is exactly \<open>1\<close>. The duty that \<^verbatim>\<open>fan::update\<close> computes is the
  truncation of this double product.
\<close>

lemma product_is_rounded:
  "round_double (1 / 3) = Finite (6004799503160661 / 18014398509481984) \<and>
   dmul (double_of_int 3) (Finite (6004799503160661 / 18014398509481984)) = Finite 1 \<and>
   3 * (6004799503160661 / 18014398509481984 :: rat) < 1"
  by code_simp

section \<open>Paths and decimal text\<close>

lemma filename_no_separator: "CHR ''/'' \<notin> set (filename p)"
proof -
  have "\<forall>c\<in>set (takeWhile (\<lambda>c. c \<noteq> CHR ''/'') (rev p)). c \<noteq> CHR ''/''"
    by (auto dest: set_takeWhileD)
  then show ?thesis by (auto simp: filename_def)
qed

lemma remove_filename_append: "remove_filename p @ filename p = p"
proof -
  have "remove_filename p @ filename p =
        rev (takeWhile (\<lambda>c. c \<noteq> CHR ''/'') (rev p) @ dropWhile (\<lambda>c. c \<noteq> CHR ''/'') (rev p))"
    by (simp only: remove_filename_def filename_def rev_append)
  also have "\<dots> = p" by (simp only: takeWhile_dropWhile_id rev_rev_ident)
  finally show ?thesis .
qed

lemma enable_path_eq: "enable_path f = pwm f @ ''_enable''"
proof (cases "filename (pwm f)")
  case Nil
  then show ?thesis
    using remove_filename_append [of "pwm f"] by (simp add: enable_path_def replace_filename_def)
next
  case (Cons c cs)
  then have "c \<noteq> CHR ''/''" using filename_no_separator [of "pwm f"] by auto
  then show ?thesis
    using Cons remove_filename_append [of "pwm f"]
    by (simp add: enable_path_def replace_filename_def)
qed

lemma enable_path_neq: "enable_path f \<noteq> pwm f"
  by (simp add: enable_path_eq)

lemma digit_cases: "d < 10 \<Longrightarrow> d = 0 \<or> d = 1 \<or> d = 2 \<or> d = 3 \<or> d = 4 \<or> d = 5 \<or> d = 6 \<or> d = 7 \<or> d = 8 \<or> d = (9::nat)"
  by arith

lemma digit_char_props:
  assumes "d < 10"
  shows "digit_value (digit_char d) = d \<and> is_digit (digit_char d)"
  using digit_cases [OF assms]
  by (elim disjE) (simp_all add: digit_char_def digit_value_def is_digit_def)

lemma dec_value_snoc: "dec_value (cs @ [c]) = 10 * dec_value cs + digit_value c"
  by (simp add: dec_value_def)

lemma dec_nat_correct: "dec_value (dec_nat n) = n \<and> list_all is_digit (dec_nat n)"
proof (induction n rule: dec_nat.induct)
  case (1 n)
  show ?case
  proof (cases "n < 10")
    case True
    then show ?thesis
      using digit_char_props [of n] by (simp add: dec_nat.simps [of n] dec_value_def)
  next
    case False
    have m: "n mod 10 < 10" by simp
    from False "1" have ih: "dec_value (dec_nat (n div 10)) = n div 10"
      "list_all is_digit (dec_nat (n div 10))" by simp_all
    show ?thesis
      using False ih digit_char_props [OF m]
      by (simp add: dec_nat.simps [of n] dec_value_snoc)
  qed
qed

lemma show_int_uint: "show_int (uint (v :: 8 word)) = dec_nat (unat v)"
  by (simp add: show_int_def)

lemma show_int_255: "show_int 255 = ''255''"
  by (simp add: show_int_def dec_nat.simps digit_char_def)

lemma dec_nat_nonempty: "dec_nat n \<noteq> []"
  by (subst dec_nat.simps) simp

lemma show_int_nonempty: "show_int i \<noteq> []"
  by (simp add: show_int_def dec_nat_nonempty)

section \<open>The sensor\<close>

text \<open>
  Claim C4. \<^verbatim>\<open>source::update()\<close> has no failure branch: its \<^verbatim>\<open>catch (...)\<close> takes every
  exception of \<^verbatim>\<open>get()\<close>, so the function always returns a state. In that state
  \<^verbatim>\<open>last_value()\<close> is the reading \<^verbatim>\<open>get()\<close> has just returned, and it is empty when \<^verbatim>\<open>get()\<close>
  threw, whatever the sensor held before: a failed read never keeps the old reading.
  No resource is touched.
\<close>

theorem source_update_last_value:
  "last_value (sources (source_update this got w) this) =
     (case got of Inl e \<Rightarrow> None | Inr v \<Rightarrow> Some v) \<and>
   files (source_update this got w) = files w \<and>
   written (source_update this got w) = written w"
  by (simp add: source_update_def spdlog_def split: sum.splits)

section \<open>The coefficient of a driver\<close>

lemma sint_diff:
  fixes a b :: int32
  assumes "- (2 ^ 31) \<le> sint a - sint b" "sint a - sint b < 2 ^ 31"
  shows "sint (a - b) = sint a - sint b"
  using assms by (simp add: sint_word_ariths signed_take_bit_int_eq_self)

text \<open>
  Where the difference of the thresholds fits \<^verbatim>\<open>int32_t\<close>, \<^verbatim>\<open>get_coeff\<close> is the clamped linear
  interpolation: \<open>0\<close> up to and at \<open>min\<close>, \<open>1\<close> at \<open>max\<close> and above, the rounded quotient in
  between, and always within the unit interval.
\<close>

lemma get_coeff_no_overflow:
  assumes v: "last_value (sources w (src d)) = Some v"
    and lt: "sint (min_thr d) < sint (max_thr d)"
    and fits: "sint (max_thr d) - sint (min_thr d) < 2 ^ 31"
  shows "get_coeff d w =
           Inr (if sint v \<le> sint (min_thr d) then Finite 0
                else if sint (max_thr d) \<le> sint v then Finite 1
                else round_double (of_int (sint v - sint (min_thr d)) /
                                   of_int (sint (max_thr d) - sint (min_thr d))))"
    and "\<exists>y. get_coeff d w = Inr (Finite y) \<and> 0 \<le> y \<and> y \<le> 1"
proof -
  let ?mn = "sint (min_thr d)" and ?mx = "sint (max_thr d)"
  have range: "sint (max_thr d - min_thr d) = ?mx - ?mn"
    using lt fits by (intro sint_diff) simp_all
  have scaled: "sint (v - min_thr d) = sint v - ?mn" if "?mn \<le> sint v" "sint v \<le> ?mx"
    using that fits by (intro sint_diff) simp_all
  have rb: "\<bar>?mx - ?mn\<bar> < 2 ^ 53"
    using lt fits by simp
  have sb: "\<bar>sint v - ?mn\<bar> < 2 ^ 53" if "?mn \<le> sint v" "sint v \<le> ?mx"
    using that fits by simp
  have mid: "get_coeff d w =
         Inr (ddiv (Finite (of_int (sint v - ?mn))) (Finite (of_int (?mx - ?mn))))"
    if "?mn \<le> sint v" "sint v \<le> ?mx"
  proof -
    have "get_coeff d w =
         Inr (ddiv (double_of_int (sint (v - min_thr d)))
                   (double_of_int (sint (max_thr d - min_thr d))))"
      using that v by (simp add: get_coeff_def Let_def del: ddiv.simps)
    then show ?thesis
      by (simp only: range scaled [OF that] double_of_int_exact [OF rb]
            double_of_int_exact [OF sb [OF that]])
  qed
  have nz: "(of_int (?mx - ?mn) :: rat) \<noteq> 0"
  proof -
    have "?mx - ?mn \<noteq> 0" using lt by simp
    then show ?thesis unfolding of_int_eq_0_iff .
  qed
  show eq: "get_coeff d w =
           Inr (if sint v \<le> ?mn then Finite 0
                else if ?mx \<le> sint v then Finite 1
                else round_double (of_int (sint v - ?mn) / of_int (?mx - ?mn)))"
  proof -
    consider "sint v < ?mn" | "sint v = ?mn" | "?mn < sint v" "sint v < ?mx"
      | "sint v = ?mx" | "?mx < sint v" by linarith
    then show ?thesis
    proof cases
      case 1 then show ?thesis using v by (simp add: get_coeff_def)
    next
      case 2
      then show ?thesis using mid lt nz by (simp add: round_double_0)
    next
      case 3
      then show ?thesis using mid nz by simp
    next
      case 4
      then show ?thesis using mid lt nz by (simp add: round_double_1)
    next
      case 5 then show ?thesis using v lt by (simp add: get_coeff_def)
    qed
  qed
  show "\<exists>y. get_coeff d w = Inr (Finite y) \<and> 0 \<le> y \<and> y \<le> 1"
  proof (cases "?mn \<le> sint v \<and> sint v \<le> ?mx")
    case True
    have "\<exists>y. ddiv (Finite (of_int (sint v - ?mn))) (Finite (of_int (?mx - ?mn))) = Finite y \<and>
            0 \<le> y \<and> y \<le> 1"
      by (rule ddiv_unit) (use True lt in simp_all)
    then show ?thesis using mid True by simp
  next
    case False
    then show ?thesis using v by (auto simp: get_coeff_def)
  qed
qed

text \<open>
  Claim C3. The coefficient is not the clamped ratio for every driver with \<open>min < max\<close>.
  The subtractions \<^verbatim>\<open>max - min\<close> and \<^verbatim>\<open>value - min\<close> are done in \<^verbatim>\<open>int32_t\<close>, and for thresholds
  further apart than \<open>2 ^ 31 - 1\<close> they overflow. For the widest driver, from \<open>-2147483648\<close>
  to \<open>2147483647\<close>, and the reading \<open>0\<close>, which lies strictly between the thresholds, the
  wrapped range is \<open>-1\<close>, the wrapped offset is \<open>-2147483648\<close>, and the coefficient is
  \<open>2147483648\<close>: neither the ratio \<open>(v - min) / (max - min)\<close>, which is about a half, nor a
  value of the unit interval.
\<close>

theorem get_coeff_overflow:
  "sint (- 2147483648 :: int32) < sint (2147483647 :: int32) \<and>
   get_coeff \<lparr>src = cpu_source, min_thr = - 2147483648, max_thr = 2147483647\<rparr>
     (readings (Some 0) None) = Inr (Finite 2147483648)"
  by code_simp

section \<open>Streams, \<^verbatim>\<open>set_pwm\<close> and \<^verbatim>\<open>reset\<close>\<close>

text \<open>
  \<^verbatim>\<open>set_pwm\<close> throws exactly when the actuator does not open. When it opens, the call
  returns normally whether or not the resource accepts the text.
\<close>

lemma set_pwm_ok:
  assumes "can_open env (pwm f)" "can_write env (pwm f)"
  shows "set_pwm this f v env w =
           Inr (w\<lparr>files := (files w)(pwm f \<mapsto> show_int (uint v)),
                  written := written w @ [(pwm f, show_int (uint v))],
                  log := log w @ [(Trace, Pwm_set_to v)]\<rparr>)"
  using assms
  by (simp add: set_pwm_def ofstream_open_def ofstream_insert_def ofstream_destroy_def
        spdlog_def show_int_nonempty)

lemma set_pwm_unwritten:
  assumes "can_open env (pwm f)" "\<not> can_write env (pwm f)"
  shows "set_pwm this f v env w =
           Inr (w\<lparr>files := (files w)(pwm f \<mapsto> []),
                  log := log w @ [(Trace, Pwm_set_to v)]\<rparr>)"
  using assms
  by (simp add: set_pwm_def ofstream_open_def ofstream_insert_def ofstream_destroy_def
        spdlog_def)

lemma set_pwm_fails:
  assumes "\<not> can_open env (pwm f)"
  shows "set_pwm this f v env w = Inl (Thrown (Set_pwm_failed this v), w)"
  using assms
  by (simp add: set_pwm_def ofstream_open_def ofstream_insert_def ofstream_destroy_def)

lemma set_pwm_Inr_iff: "(\<exists>w'. set_pwm this f v env w = Inr w') \<longleftrightarrow> can_open env (pwm f)"
  by (simp add: set_pwm_def ofstream_open_def ofstream_insert_def)

lemma set_pwm_defined: "set_pwm this f v env w \<noteq> Inl (Undefined_behaviour, w')"
  by (simp add: set_pwm_def ofstream_open_def ofstream_insert_def Let_def split: if_splits)

lemma set_pwm_written:
  "written (final_world (set_pwm this f v env w)) = written w \<or>
   written (final_world (set_pwm this f v env w)) = written w @ [(pwm f, dec_nat (unat v))]"
  by (simp add: set_pwm_def ofstream_open_def ofstream_insert_def ofstream_destroy_def
      spdlog_def show_int_uint)

text \<open>
  \<^verbatim>\<open>reset\<close> always reaches \<^verbatim>\<open>set_pwm(255)\<close>; what differs is the state in which it calls it.
  Its own \<^verbatim>\<open>throw\<close> is never taken.
\<close>

lemma reset_eq:
  "reset this f env w =
     set_pwm this f 255 env
       (if can_open env (enable_path f)
        then if can_write env (enable_path f)
             then w\<lparr>files := (files w)(enable_path f \<mapsto> ''1''),
                    written := written w @ [(enable_path f, ''1'')]\<rparr>
             else w\<lparr>files := (files w)(enable_path f \<mapsto> [])\<rparr>
        else w\<lparr>log := log w @ [(Debug, Could_not_open (enable_path f))]\<rparr>)"
  by (simp add: reset_def ofstream_open_def ofstream_insert_def ofstream_destroy_def spdlog_def)

lemma reset_failed_unreachable: "reset this f env w \<noteq> Inl (Thrown (Reset_failed p), w')"
  by (simp add: reset_eq set_pwm_def ofstream_open_def ofstream_insert_def
      split: if_splits)

lemma reset_Inr_iff: "(\<exists>w'. reset this f env w = Inr w') \<longleftrightarrow> can_open env (pwm f)"
  by (simp only: reset_eq set_pwm_Inr_iff)

lemma reset_defined: "reset this f env w \<noteq> Inl (Undefined_behaviour, w')"
  by (simp only: reset_eq set_pwm_defined not_False_eq_True)

lemma reset_written:
  "written (final_world (reset this f env w)) \<in>
     {written w, written w @ [(pwm f, ''255'')], written w @ [(enable_path f, ''1'')],
      written w @ [(enable_path f, ''1''), (pwm f, ''255'')]}"
  by (simp add: reset_eq set_pwm_def ofstream_open_def ofstream_insert_def ofstream_destroy_def
      spdlog_def show_int_255)

lemma reset_cases:
  "(\<exists>w1. reset this f env w = Inr w1 \<and> (\<exists>rest. log w1 = log w @ rest)) \<or>
   (\<exists>ex w1. reset this f env w = Inl (Thrown ex, w1) \<and> exception_fan ex = this \<and>
      (\<exists>rest. log w1 = log w @ rest))"
  by (simp add: reset_eq set_pwm_def ofstream_open_def ofstream_insert_def ofstream_destroy_def
      spdlog_def Let_def)

section \<open>Updating a fan\<close>

lemma get_coeff_Inl_iff:
  "(\<exists>e. get_coeff d w = Inl e) \<longleftrightarrow> last_value (sources w (src d)) = None"
  by (auto simp: get_coeff_def Let_def split: option.splits)

lemma coefficients_missing:
  assumes "\<exists>d\<in>set ds. last_value (sources w (src d)) = None"
  shows "\<exists>d\<in>set ds. last_value (sources w (src d)) = None \<and> coefficients ds w vals = Inl (src d)"
  using assms
proof (induction ds arbitrary: vals)
  case Nil
  then show ?case by simp
next
  case (Cons d ds)
  show ?case
  proof (cases "get_coeff d w")
    case (Inl e)
    then have "last_value (sources w (src d)) = None"
      using get_coeff_Inl_iff [of d w] by blast
    then show ?thesis using Inl by auto
  next
    case (Inr c)
    then have "last_value (sources w (src d)) \<noteq> None"
      using get_coeff_Inl_iff [of d w] by auto
    then have "\<exists>d\<in>set ds. last_value (sources w (src d)) = None"
      using Cons.prems by auto
    from Cons.IH [OF this, of "vals @ [c]"] show ?thesis using Inr by auto
  qed
qed

text \<open>
  Claim C1. When a driver of the fan has a sensor without a value, \<^verbatim>\<open>fan::update()\<close> returns
  normally having done one thing: it has logged a warning that names the fan and the
  sensor of such a driver (the first one in the order of the drivers). Nothing was opened
  or written, so the resources are as the last command left them; and the result is the
  same for every accumulation function and every behaviour of the resources, since
  neither is reached.
\<close>

theorem update_missing_value:
  assumes "\<exists>d\<in>set (drivers f). last_value (sources w (src d)) = None"
  shows "\<exists>d\<in>set (drivers f). \<exists>w'.
           last_value (sources w (src d)) = None \<and>
           update this f env w = Inr w' \<and>
           files w' = files w \<and> written w' = written w \<and> sources w' = sources w \<and>
           log w' = log w @ [(Warn, Source_has_no_value this (src d))] \<and>
           (\<forall>g env'. update this (f\<lparr>accum_fn := g\<rparr>) env' w = Inr w')"
proof -
  from coefficients_missing [OF assms, of "[]"]
  obtain d where d: "d \<in> set (drivers f)" "last_value (sources w (src d)) = None"
    "coefficients (drivers f) w [] = Inl (src d)" by blast
  let ?w = "spdlog Warn (Source_has_no_value this (src d)) w"
  have "update this f env w = Inr ?w" by (simp add: update_def d(3))
  moreover have "\<forall>g env'. update this (f\<lparr>accum_fn := g\<rparr>) env' w = Inr ?w"
    by (simp add: update_def d(3))
  moreover have "files ?w = files w" "written ?w = written w" "sources ?w = sources w"
    "log ?w = log w @ [(Warn, Source_has_no_value this (src d))]"
    by (simp_all add: spdlog_def)
  ultimately show ?thesis using d(1,2) by blast
qed

theorem update_missing_value_witness:
  "(\<exists>d\<in>set (drivers main_fan). last_value (sources (readings (Some 64000) None) (src d)) = None) \<and>
   (\<exists>w'. update 0 main_fan all_ok (readings (Some 64000) None) = Inr w' \<and>
         files w' = Map.empty \<and> written w' = [] \<and>
         log w' = [(Warn, Source_has_no_value 0 hdd_source)])"
proof -
  let ?w = "readings (Some 64000) None"
  have h: "\<exists>d\<in>set (drivers main_fan). last_value (sources ?w (src d)) = None"
    by (simp add: main_fan_def readings_def cpu_source_def hdd_source_def)
  from update_missing_value [OF h, of 0 all_ok]
  obtain d w' where d: "d \<in> set (drivers main_fan)" "last_value (sources ?w (src d)) = None"
    and w': "update 0 main_fan all_ok ?w = Inr w'" "files w' = files ?w" "written w' = written ?w"
      "log w' = log ?w @ [(Warn, Source_has_no_value 0 (src d))]"
    by blast
  from d have "src d = hdd_source"
    by (auto simp: main_fan_def readings_def cpu_source_def hdd_source_def)
  with w' have "update 0 main_fan all_ok ?w = Inr w' \<and> files w' = Map.empty \<and> written w' = [] \<and>
         log w' = [(Warn, Source_has_no_value 0 hdd_source)]"
    by (simp add: readings_def)
  with h show ?thesis by blast
qed

lemma uint_word_of_int_8: "0 \<le> k \<Longrightarrow> k \<le> 255 \<Longrightarrow> uint (word_of_int k :: 8 word) = k"
  by (simp add: uint_word_of_int take_bit_int_eq_self)

lemma uint8_of_double_floor:
  assumes "0 \<le> y" "\<lfloor>y\<rfloor> \<le> 255"
  shows "uint8_of_double (Finite y) = Some (word_of_int \<lfloor>y\<rfloor>)"
  using assms by (simp add: truncate_rat_def Let_def)

lemma update_scale:
  assumes range: "pwm_min f < pwm_max f"
    and vals: "coefficients (drivers f) w [] = Inr vals"
    and fn: "accum_fn f = Some fn"
    and scale: "fn vals = Some (Finite s)"
    and s: "0 \<le> s" "s \<le> 1"
  shows "\<exists>p duty.
     round_double (of_int (uint (pwm_max f) - uint (pwm_min f)) * s) = Finite p \<and>
     uint duty = uint (pwm_min f) + \<lfloor>p\<rfloor> \<and>
     pwm_min f \<le> duty \<and> duty \<le> pwm_max f \<and>
     (s = 0 \<longrightarrow> duty = pwm_min f) \<and> (s = 1 \<longrightarrow> duty = pwm_max f) \<and>
     update this f env w =
       (case set_pwm this f duty env (spdlog Trace (Got_coefficients vals) w) of
          Inl e \<Rightarrow> Inl e
        | Inr w2 \<Rightarrow> Inr (spdlog Info (Fan_set_to_pwm (pwm f) (uint duty)) w2)) \<and>
     (can_open env (pwm f) \<and> can_write env (pwm f) \<longrightarrow>
        (\<exists>w'. update this f env w = Inr w' \<and>
              files w' = (files w)(pwm f \<mapsto> dec_nat (unat duty)) \<and>
              written w' = written w @ [(pwm f, dec_nat (unat duty))]))"
proof -
  define r where "r = uint (pwm_max f) - uint (pwm_min f)"
  have lt: "uint (pwm_min f) < uint (pwm_max f)" using range by (simp add: word_less_def)
  have mx: "uint (pwm_max f) \<le> 255" using uint_lt2p [of "pwm_max f"] by simp
  have mn: "0 \<le> uint (pwm_min f)" by simp
  have r0: "0 \<le> r" and r255: "r \<le> 255"
    using lt mx uint_ge_0 [of "pwm_min f"] unfolding r_def by linarith+
  have r53: "r < 2 ^ 53" using r255 by simp
  from dmul_scale [OF s r0 r53]
  obtain y where y: "dmul (double_of_int r) (Finite s) = Finite y" "0 \<le> y" "y \<le> of_int r"
    "s = 0 \<longrightarrow> y = 0" "s = 1 \<longrightarrow> y = of_int r" by blast
  have rd: "round_double (of_int r * s) = Finite y"
    using y(1) r53 r0 by (simp add: double_of_int_exact)
  have fl0: "0 \<le> \<lfloor>y\<rfloor>" using y(2) by simp
  have flr: "\<lfloor>y\<rfloor> \<le> r" using y(3) by (simp add: floor_le_iff)
  have fl255: "\<lfloor>y\<rfloor> \<le> 255" using flr r255 by linarith
  have cast: "uint8_of_double (Finite y) = Some (word_of_int \<lfloor>y\<rfloor>)"
    using y(2) fl255 by (rule uint8_of_double_floor)
  have uc: "uint (word_of_int \<lfloor>y\<rfloor> :: 8 word) = \<lfloor>y\<rfloor>"
    using fl0 fl255 by (rule uint_word_of_int_8)
  define duty :: "8 word" where "duty = word_of_int (uint (pwm_min f) + \<lfloor>y\<rfloor>)"
  have s0: "0 \<le> uint (pwm_min f) + \<lfloor>y\<rfloor>" using fl0 uint_ge_0 [of "pwm_min f"] by linarith
  have s255: "uint (pwm_min f) + \<lfloor>y\<rfloor> \<le> 255" using flr mx unfolding r_def by linarith
  have ud: "uint duty = uint (pwm_min f) + \<lfloor>y\<rfloor>"
    unfolding duty_def using s0 s255 by (rule uint_word_of_int_8)
  have le1: "pwm_min f \<le> duty" unfolding word_le_def ud using fl0 by linarith
  have le2: "duty \<le> pwm_max f" unfolding word_le_def ud using flr unfolding r_def by linarith
  have z: "s = 0 \<longrightarrow> duty = pwm_min f"
  proof
    assume "s = 0"
    then have "\<lfloor>y\<rfloor> = 0" using y(4) by simp
    then have "uint duty = uint (pwm_min f)" using ud by linarith
    then show "duty = pwm_min f" by (rule word_uint_eqI)
  qed
  have o: "s = 1 \<longrightarrow> duty = pwm_max f"
  proof
    assume "s = 1"
    then have "y = of_int r" using y(5) by simp
    then have "\<lfloor>y\<rfloor> = r" by (simp only: floor_of_int)
    then have "uint duty = uint (pwm_max f)" using ud unfolding r_def by linarith
    then show "duty = pwm_max f" by (rule word_uint_eqI)
  qed
  have upd: "update this f env w =
       (case set_pwm this f duty env (spdlog Trace (Got_coefficients vals) w) of
          Inl e \<Rightarrow> Inl e
        | Inr w2 \<Rightarrow> Inr (spdlog Info (Fan_set_to_pwm (pwm f) (uint duty)) w2))"
  proof -
    have dd: "pwm_min f + word_of_int \<lfloor>y\<rfloor> = duty" by (simp add: duty_def)
    show ?thesis
      by (simp add: update_def vals fn scale Let_def r_def [symmetric] y(1) cast uc
            dd ud del: uint8_of_double.simps dmul.simps cong: sum.case_cong)
  qed
  have wr: "can_open env (pwm f) \<and> can_write env (pwm f) \<longrightarrow>
        (\<exists>w'. update this f env w = Inr w' \<and>
              files w' = (files w)(pwm f \<mapsto> dec_nat (unat duty)) \<and>
              written w' = written w @ [(pwm f, dec_nat (unat duty))])"
    by (simp add: upd set_pwm_ok spdlog_def show_int_uint)
  from rd ud le1 le2 z o upd wr show ?thesis unfolding r_def by blast
qed

text \<open>
  Claim C2. For a fan with \<open>pwm_min < pwm_max\<close> whose accumulation function returns a scale
  \<open>s\<close> in the unit interval, \<^verbatim>\<open>fan::update()\<close> calls \<^verbatim>\<open>set_pwm\<close> with the 8-bit value
  \<open>duty = pwm_min + \<lfloor>p\<rfloor>\<close>, where \<open>p\<close> is the double product of \<open>pwm_max - pwm_min\<close> and \<open>s\<close>: the
  product is truncated, not rounded. The duty lies between \<open>pwm_min\<close> and \<open>pwm_max\<close>, it is
  \<open>pwm_min\<close> for the scale \<open>0\<close> and \<open>pwm_max\<close> for the scale \<open>1\<close>, and where the actuator can be
  written its decimal text is what the actuator then holds. The witness is the scenario
  of the specification: thresholds 60000 and 80000, reading 70000, coefficient \<open>1 / 2\<close>,
  \<open>pwm_min = 60\<close>, \<open>pwm_max = 240\<close>, duty 150.
\<close>

theorem update_duty:
  assumes "pwm_min f < pwm_max f"
    and "coefficients (drivers f) w [] = Inr vals"
    and "accum_fn f = Some fn"
    and "fn vals = Some (Finite s)"
    and "0 \<le> s" "s \<le> 1"
  shows "\<exists>p duty.
     round_double (of_int (uint (pwm_max f) - uint (pwm_min f)) * s) = Finite p \<and>
     uint duty = uint (pwm_min f) + \<lfloor>p\<rfloor> \<and>
     pwm_min f \<le> duty \<and> duty \<le> pwm_max f \<and>
     (s = 0 \<longrightarrow> duty = pwm_min f) \<and> (s = 1 \<longrightarrow> duty = pwm_max f) \<and>
     update this f env w =
       (case set_pwm this f duty env (spdlog Trace (Got_coefficients vals) w) of
          Inl e \<Rightarrow> Inl e
        | Inr w2 \<Rightarrow> Inr (spdlog Info (Fan_set_to_pwm (pwm f) (uint duty)) w2)) \<and>
     (can_open env (pwm f) \<and> can_write env (pwm f) \<longrightarrow>
        (\<exists>w'. update this f env w = Inr w' \<and>
              files w' = (files w)(pwm f \<mapsto> dec_nat (unat duty)) \<and>
              written w' = written w @ [(pwm f, dec_nat (unat duty))]))"
  using assms by (rule update_scale)

lemma coefficients_single:
  "coefficients (drivers single_driver_fan) (readings (Some 70000) None) [] = Inr [Finite (1 / 2)]"
proof -
  let ?d = "\<lparr>src = cpu_source, min_thr = 60000, max_thr = 80000\<rparr>"
  have "get_coeff ?d (readings (Some 70000) None) = Inr (round_double (10000 / 20000))"
    by (subst get_coeff_no_overflow(1) [where v = 70000]) (simp_all add: readings_def)
  then show ?thesis by (simp add: single_driver_fan_def round_double_half)
qed

theorem update_duty_witness:
  "pwm_min single_driver_fan < pwm_max single_driver_fan \<and>
   coefficients (drivers single_driver_fan) (readings (Some 70000) None) [] = Inr [Finite (1 / 2)] \<and>
   accum_fn single_driver_fan = Some max_element \<and>
   max_element [Finite (1 / 2)] = Some (Finite (1 / 2)) \<and>
   (\<exists>w'. update 0 single_driver_fan all_ok (readings (Some 70000) None) = Inr w' \<and>
         files w' (pwm single_driver_fan) = Some ''150'' \<and>
         written w' = [(pwm single_driver_fan, ''150'')])"
proof -
  let ?f = single_driver_fan and ?w = "readings (Some 70000) None"
  have h1: "pwm_min ?f < pwm_max ?f" by (simp add: single_driver_fan_def main_fan_def)
  note h2 = coefficients_single
  have h3: "accum_fn ?f = Some max_element" by (simp add: single_driver_fan_def main_fan_def)
  have h4: "max_element [Finite (1 / 2)] = Some (Finite (1 / 2))" by (simp add: max_element_def)
  have io: "can_open all_ok (pwm ?f) \<and> can_write all_ok (pwm ?f)" by (simp add: all_ok_def)
  have s: "(0::rat) \<le> 1 / 2" "(1 / 2 :: rat) \<le> 1" by simp_all
  from update_duty [OF h1 h2 h3 h4 s, of 0 all_ok]
  obtain p and duty :: "8 word" where
    p: "round_double (of_int (uint (pwm_max ?f) - uint (pwm_min ?f)) * (1 / 2)) = Finite p"
    and d: "uint duty = uint (pwm_min ?f) + \<lfloor>p\<rfloor>"
    and imp: "can_open all_ok (pwm ?f) \<and> can_write all_ok (pwm ?f) \<longrightarrow>
        (\<exists>w'. update 0 ?f all_ok ?w = Inr w' \<and>
              files w' = (files ?w)(pwm ?f \<mapsto> dec_nat (unat duty)) \<and>
              written w' = written ?w @ [(pwm ?f, dec_nat (unat duty))])"
    by blast
  from imp io obtain w' where
    w': "update 0 ?f all_ok ?w = Inr w'"
      "files w' = (files ?w)(pwm ?f \<mapsto> dec_nat (unat duty))"
      "written w' = written ?w @ [(pwm ?f, dec_nat (unat duty))]"
    by blast
  have "round_double (of_int 90) = Finite (of_int 90)" by (rule round_double_of_int) simp
  then have "p = 90" using p by (simp add: single_driver_fan_def main_fan_def)
  then have "uint duty = 150" using d by (simp add: single_driver_fan_def main_fan_def)
  then have "unat duty = 150" by (simp add: unat_eq_nat_uint)
  then have "dec_nat (unat duty) = ''150''" by (simp add: dec_nat.simps digit_char_def)
  with w' have "update 0 ?f all_ok ?w = Inr w' \<and> files w' (pwm ?f) = Some ''150'' \<and>
      written w' = [(pwm ?f, ''150'')]"
    by (simp add: readings_def)
  with h1 h2 h3 h4 show ?thesis by blast
qed

lemma update_written:
  "written (final_world (update this f env w)) = written w \<or>
   (\<exists>v :: 8 word. written (final_world (update this f env w)) = written w @ [(pwm f, dec_nat (unat v))])"
proof -
  have sp: "written (final_world (case set_pwm this f v env w0 of Inl e \<Rightarrow> Inl e
               | Inr w2 \<Rightarrow> Inr (spdlog Info m w2))) = written (final_world (set_pwm this f v env w0))"
    for v w0 m
    by (cases "set_pwm this f v env w0") (auto simp: spdlog_def)
  show ?thesis
    using set_pwm_written [of this f _ env "spdlog Trace (Got_coefficients _) w"]
    unfolding update_def Let_def
    by (auto simp: spdlog_def sp split: sum.splits option.splits)
qed

lemma update_main_written:
  "written (final_world (update 0 main_fan all_ok (readings (Some 70000) (Some 43000)))) =
     [(pwm main_fan, ''150'')]"
  by code_simp

text \<open>
  Claim C10. Every text that \<^verbatim>\<open>update()\<close> and \<^verbatim>\<open>reset()\<close> write, whether they return or
  throw, is accounted for. \<^verbatim>\<open>update()\<close> writes to the actuator only, and what it writes is
  the decimal text of an 8-bit value: digits only, denoting a number of at most 255.
  \<^verbatim>\<open>reset()\<close> writes \<open>1\<close> to the enable resource and the decimal text of 255 to the actuator,
  and the two resources are never the same.
\<close>

theorem actuator_texts:
  "(\<exists>new. written (final_world (update this f env w)) = written w @ new \<and>
      (\<forall>(p, t)\<in>set new. p = pwm f \<and>
         (\<exists>v :: 8 word. t = dec_nat (unat v) \<and> unat v \<le> 255 \<and>
            dec_value t = unat v \<and> list_all is_digit t))) \<and>
   (\<exists>new. written (final_world (reset this f env w)) = written w @ new \<and>
      (\<forall>(p, t)\<in>set new. (p = enable_path f \<and> t = ''1'') \<or>
         (p = pwm f \<and> t = dec_nat 255))) \<and>
   enable_path f \<noteq> pwm f"
proof -
  have u8: "unat v \<le> 255" for v :: "8 word"
  proof -
    have "unat v < 2 ^ LENGTH(8)" by (rule unsigned_less)
    then show ?thesis by simp
  qed
  have a: "\<exists>new. written (final_world (update this f env w)) = written w @ new \<and>
      (\<forall>(p, t)\<in>set new. p = pwm f \<and>
         (\<exists>v :: 8 word. t = dec_nat (unat v) \<and> unat v \<le> 255 \<and>
            dec_value t = unat v \<and> list_all is_digit t))"
    using update_written [of this f env w]
  proof
    assume "written (final_world (update this f env w)) = written w"
    then show ?thesis by (intro exI [of _ "[]"]) simp
  next
    assume "\<exists>v :: 8 word. written (final_world (update this f env w)) =
              written w @ [(pwm f, dec_nat (unat v))]"
    then obtain v :: "8 word" where
      "written (final_world (update this f env w)) = written w @ [(pwm f, dec_nat (unat v))]" ..
    then show ?thesis
      using u8 [of v] dec_nat_correct [of "unat v"]
      by (intro exI [of _ "[(pwm f, dec_nat (unat v))]"]) auto
  qed
  have d255: "dec_nat 255 = ''255''" by (simp add: dec_nat.simps digit_char_def)
  have b: "\<exists>new. written (final_world (reset this f env w)) = written w @ new \<and>
      (\<forall>(p, t)\<in>set new. (p = enable_path f \<and> t = ''1'') \<or> (p = pwm f \<and> t = dec_nat 255))"
  proof -
    from reset_written [of this f env w]
    consider "written (final_world (reset this f env w)) = written w @ []"
      | "written (final_world (reset this f env w)) = written w @ [(pwm f, ''255'')]"
      | "written (final_world (reset this f env w)) = written w @ [(enable_path f, ''1'')]"
      | "written (final_world (reset this f env w)) =
           written w @ [(enable_path f, ''1''), (pwm f, ''255'')]"
      by auto
    then show ?thesis
    proof cases
      case 1 then show ?thesis by (intro exI [of _ "[]"]) simp
    next
      case 2 then show ?thesis by (intro exI [of _ "[(pwm f, ''255'')]"]) (simp add: d255)
    next
      case 3 then show ?thesis by (intro exI [of _ "[(enable_path f, ''1'')]"]) simp
    next
      case 4 then show ?thesis
        by (intro exI [of _ "[(enable_path f, ''1''), (pwm f, ''255'')]"]) (simp add: d255)
    qed
  qed
  from a b enable_path_neq show ?thesis by blast
qed

theorem actuator_texts_witness:
  "written (final_world (update 0 main_fan all_ok (readings (Some 70000) (Some 43000)))) =
     [(pwm main_fan, ''150'')] \<and>
   (\<exists>v :: 8 word. ''150'' = dec_nat (unat v) \<and> unat v \<le> 255 \<and> dec_value ''150'' = unat v \<and>
      list_all is_digit ''150'')"
proof -
  let ?w = "readings (Some 70000) (Some 43000)"
  from actuator_texts [of 0 main_fan all_ok ?w]
  obtain new where new: "written (final_world (update 0 main_fan all_ok ?w)) = written ?w @ new"
    and all: "\<forall>(p, t)\<in>set new. p = pwm main_fan \<and>
         (\<exists>v :: 8 word. t = dec_nat (unat v) \<and> unat v \<le> 255 \<and>
            dec_value t = unat v \<and> list_all is_digit t)"
    by blast
  have "written ?w = []" by (simp add: readings_def)
  with new update_main_written have "new = [(pwm main_fan, ''150'')]"
    by simp
  with all have "\<exists>v :: 8 word. ''150'' = dec_nat (unat v) \<and> unat v \<le> 255 \<and>
      dec_value ''150'' = unat v \<and> list_all is_digit ''150''"
    by simp
  with update_main_written show ?thesis by blast
qed

section \<open>Resetting a fan\<close>

lemma enable_path_main_fan:
  "enable_path main_fan = ''/sys/devices/platform/nct6775.672/hwmon/hwmon2/pwm2_enable''"
  by (simp add: enable_path_eq main_fan_def)

lemma pwm_main_fan:
  "pwm main_fan = ''/sys/devices/platform/nct6775.672/hwmon/hwmon2/pwm2''"
  by (simp add: main_fan_def)

text \<open>
  Claim C6. \<^verbatim>\<open>reset()\<close> does not raise on a write that fails. The insertion of \<open>1\<close> into the
  opened enable stream only fills the buffer and leaves the stream good; the resource
  sees the text when the stream is destroyed, and a rejected write is not reported. So
  with an enable resource that opens and rejects the write, \<^verbatim>\<open>reset()\<close> goes on to
  \<^verbatim>\<open>set_pwm(255)\<close> and returns normally; \<^verbatim>\<open>reset_failed\<close> is never thrown
  (\<open>reset_failed_unreachable\<close>). The same holds of the write of 255: with an actuator that
  opens and rejects it, \<^verbatim>\<open>reset()\<close> returns normally and the actuator holds the empty text.
\<close>

theorem reset_write_failure_unseen:
  "can_open enable_write_fails (enable_path main_fan) \<and>
   \<not> can_write enable_write_fails (enable_path main_fan) \<and>
   (\<exists>w'. reset 0 main_fan enable_write_fails (readings None None) = Inr w' \<and>
         files w' (enable_path main_fan) = Some [] \<and>
         written w' = [(pwm main_fan, ''255'')] \<and>
         log w' = [(Trace, Pwm_set_to 255)]) \<and>
   can_open pwm_write_fails (pwm main_fan) \<and>
   \<not> can_write pwm_write_fails (pwm main_fan) \<and>
   (\<exists>w'. reset 0 main_fan pwm_write_fails (readings None None) = Inr w' \<and>
         files w' (pwm main_fan) = Some [] \<and>
         written w' = [(enable_path main_fan, ''1'')] \<and>
         log w' = [(Trace, Pwm_set_to 255)]) \<and>
   (\<exists>w'. reset 0 main_fan nothing_written (readings None None) = Inr w' \<and>
         files w' (enable_path main_fan) = Some [] \<and> files w' (pwm main_fan) = Some [] \<and>
         written w' = [])"
proof -
  let ?w = "readings None None"
  note ep = enable_path_main_fan and pw = pwm_main_fan
  have w: "written ?w = []" "log ?w = []" by (simp_all add: readings_def)
  have a: "can_open enable_write_fails (enable_path main_fan)"
    "\<not> can_write enable_write_fails (enable_path main_fan)"
    "can_open enable_write_fails (pwm main_fan)" "can_write enable_write_fails (pwm main_fan)"
    by (simp_all add: ep pw enable_write_fails_def)
  have b: "can_open pwm_write_fails (enable_path main_fan)"
    "can_write pwm_write_fails (enable_path main_fan)"
    "can_open pwm_write_fails (pwm main_fan)" "\<not> can_write pwm_write_fails (pwm main_fan)"
    by (simp_all add: ep pw pwm_write_fails_def)
  have c: "can_open nothing_written (enable_path main_fan)"
    "\<not> can_write nothing_written (enable_path main_fan)"
    "can_open nothing_written (pwm main_fan)" "\<not> can_write nothing_written (pwm main_fan)"
    by (simp_all add: nothing_written_def)
  have ne: "enable_path main_fan \<noteq> pwm main_fan" by (rule enable_path_neq)
  have 1: "\<exists>w'. reset 0 main_fan enable_write_fails ?w = Inr w' \<and>
         files w' (enable_path main_fan) = Some [] \<and>
         written w' = [(pwm main_fan, ''255'')] \<and> log w' = [(Trace, Pwm_set_to 255)]"
    using a ne w by (simp add: reset_eq set_pwm_ok show_int_255)
  have 2: "\<exists>w'. reset 0 main_fan pwm_write_fails ?w = Inr w' \<and>
         files w' (pwm main_fan) = Some [] \<and>
         written w' = [(enable_path main_fan, ''1'')] \<and> log w' = [(Trace, Pwm_set_to 255)]"
    using b w by (simp add: reset_eq set_pwm_unwritten)
  have 3: "\<exists>w'. reset 0 main_fan nothing_written ?w = Inr w' \<and>
         files w' (enable_path main_fan) = Some [] \<and> files w' (pwm main_fan) = Some [] \<and>
         written w' = []"
    using c ne w by (simp add: reset_eq set_pwm_unwritten)
  from a(1,2) b(3,4) 1 2 3 show ?thesis by blast
qed

text \<open>
  What does hold of \<^verbatim>\<open>reset()\<close>: the enable resource is the actuator's path with the suffix
  \<open>_enable\<close>; when it does not open, this is logged at debug level and \<^verbatim>\<open>set_pwm(255)\<close> is
  called all the same; the call fails exactly when the actuator does not open, and then
  with \<^verbatim>\<open>set_pwm_failed\<close>; and when the actuator opens and accepts the write it holds 255.
\<close>

lemma reset_outcomes:
  "enable_path f = pwm f @ ''_enable'' \<and>
   (\<not> can_open env (enable_path f) \<longrightarrow>
      reset this f env w =
        set_pwm this f 255 env (spdlog Debug (Could_not_open (enable_path f)) w)) \<and>
   (\<not> can_open env (pwm f) \<longrightarrow>
      (\<exists>w'. reset this f env w = Inl (Thrown (Set_pwm_failed this 255), w'))) \<and>
   (can_open env (pwm f) \<longrightarrow> (\<exists>w'. reset this f env w = Inr w')) \<and>
   (can_open env (pwm f) \<and> can_write env (pwm f) \<longrightarrow>
      (\<exists>w'. reset this f env w = Inr w' \<and> files w' (pwm f) = Some ''255''))"
proof -
  have a: "\<not> can_open env (enable_path f) \<Longrightarrow>
      reset this f env w =
        set_pwm this f 255 env (spdlog Debug (Could_not_open (enable_path f)) w)"
    by (simp add: reset_eq spdlog_def)
  have b: "\<not> can_open env (pwm f) \<Longrightarrow>
      \<exists>w'. reset this f env w = Inl (Thrown (Set_pwm_failed this 255), w')"
    by (simp add: reset_eq set_pwm_fails)
  have c: "can_open env (pwm f) \<Longrightarrow> \<exists>w'. reset this f env w = Inr w'"
    by (simp add: reset_Inr_iff)
  have d: "can_open env (pwm f) \<and> can_write env (pwm f) \<Longrightarrow>
      \<exists>w'. reset this f env w = Inr w' \<and> files w' (pwm f) = Some ''255''"
    by (simp add: reset_eq set_pwm_ok show_int_255)
  from a b c d enable_path_eq show ?thesis by blast
qed

text \<open>
  Claim C9. When \<^verbatim>\<open>reset()\<close> returns normally and the actuator accepts the text written to
  it, a second call with the resources behaving the same way returns normally too; the
  actuator holds 255 after the first call and after the second, and the second call
  leaves every resource as the first left it. That the actuator accepts the write is
  stated apart, since a call that returns normally has not learnt of a rejected write.
\<close>

theorem reset_twice:
  assumes "reset this f env w = Inr w1" and "can_write env (pwm f)"
  shows "\<exists>w2. reset this f env w1 = Inr w2 \<and>
           files w1 (pwm f) = Some ''255'' \<and> files w2 (pwm f) = Some ''255'' \<and>
           files w2 = files w1"
proof -
  have op: "can_open env (pwm f)"
    using assms(1) reset_Inr_iff [of this f env w] by blast
  note sp = set_pwm_ok [OF op assms(2)]
  have w1: "files w1 =
      (if can_open env (enable_path f)
       then (files w)(enable_path f \<mapsto> (if can_write env (enable_path f) then ''1'' else []),
                      pwm f \<mapsto> ''255'')
       else (files w)(pwm f \<mapsto> ''255''))"
    using assms(1) by (auto simp: reset_eq sp show_int_255)
  obtain w2 where w2: "reset this f env w1 = Inr w2"
    using op reset_Inr_iff [of this f env w1] by blast
  have f2: "files w2 =
      (if can_open env (enable_path f)
       then (files w1)(enable_path f \<mapsto> (if can_write env (enable_path f) then ''1'' else []),
                       pwm f \<mapsto> ''255'')
       else (files w1)(pwm f \<mapsto> ''255''))"
    using w2 by (auto simp: reset_eq sp show_int_255)
  have same: "files w2 = files w1"
    unfolding f2 w1 by (rule ext) simp
  have "files w1 (pwm f) = Some ''255''" by (simp add: w1)
  with w2 same show ?thesis by simp
qed

theorem reset_twice_witness:
  "can_write all_ok (pwm main_fan) \<and>
   (\<exists>w1 w2. reset 0 main_fan all_ok (readings None None) = Inr w1 \<and>
      reset 0 main_fan all_ok w1 = Inr w2 \<and>
      files w1 (pwm main_fan) = Some ''255'' \<and> files w2 (pwm main_fan) = Some ''255'' \<and>
      files w2 = files w1)"
proof -
  have cw: "can_write all_ok (pwm main_fan)" by (simp add: all_ok_def)
  have "\<exists>w1. reset 0 main_fan all_ok (readings None None) = Inr w1"
    by (simp add: reset_Inr_iff all_ok_def)
  then obtain w1 where w1: "reset 0 main_fan all_ok (readings None None) = Inr w1" ..
  from reset_twice [OF w1 cw] w1 cw show ?thesis by blast
qed

section \<open>Constructing the topology\<close>

lemma fan_fan_asserts:
  "(\<exists>a. fan_fan p p_min p_max acc_fn = Inl a) \<longleftrightarrow> \<not> p_min < p_max \<or> acc_fn = None"
  by (auto simp: fan_fan_def)

text \<open>
  Claim C7. The constructor asserts \<open>pwm_max > pwm_min\<close> and a non-null accumulation
  function (\<open>fan_fan_asserts\<close>). \<^verbatim>\<open>add_driver\<close> checks nothing. On the fan of \<^verbatim>\<open>main\<close> as
  constructed, a driver with both thresholds at 50000 is accepted; with the reading
  50000 its coefficient is \<open>0 / 0\<close>, and \<^verbatim>\<open>update()\<close> then casts NaN to \<^verbatim>\<open>uint8_t\<close>: the
  violation is met in the running loop, not at construction.
\<close>

theorem add_driver_unchecked:
  "fan_fan ''/sys/devices/platform/nct6775.672/hwmon/hwmon2/pwm2'' 60 240 (Some max_element) =
     Inr (main_fan\<lparr>drivers := []\<rparr>) \<and>
   drivers (add_driver (main_fan\<lparr>drivers := []\<rparr>) cpu_source 50000 50000) =
     [\<lparr>src = cpu_source, min_thr = 50000, max_thr = 50000\<rparr>] \<and>
   get_coeff \<lparr>src = cpu_source, min_thr = 50000, max_thr = 50000\<rparr>
     (readings (Some 50000) None) = Inr NaN \<and>
   (\<exists>w1. update 0 (add_driver (main_fan\<lparr>drivers := []\<rparr>) cpu_source 50000 50000) all_ok
           (readings (Some 50000) None) = Inl (Undefined_behaviour, w1) \<and>
         written w1 = [])"
proof -
  have g: "get_coeff \<lparr>src = cpu_source, min_thr = 50000, max_thr = 50000\<rparr>
     (readings (Some 50000) None) = Inr NaN"
    by (simp add: get_coeff_def readings_def double_of_int_def round_double_0)
  have c: "fan_fan ''/sys/devices/platform/nct6775.672/hwmon/hwmon2/pwm2'' 60 240
      (Some max_element) = Inr (main_fan\<lparr>drivers := []\<rparr>)"
    by (simp add: fan_fan_def main_fan_def)
  have d: "drivers (add_driver (main_fan\<lparr>drivers := []\<rparr>) cpu_source 50000 50000) =
     [\<lparr>src = cpu_source, min_thr = 50000, max_thr = 50000\<rparr>]"
    by (simp add: add_driver_def)
  have u: "\<exists>w1. update 0 (add_driver (main_fan\<lparr>drivers := []\<rparr>) cpu_source 50000 50000) all_ok
           (readings (Some 50000) None) = Inl (Undefined_behaviour, w1) \<and> written w1 = []"
  proof -
    have wr: "written (readings (Some 50000) None) = []" by (simp add: readings_def)
    show ?thesis
      by (simp add: update_def g add_driver_def main_fan_def max_element_def spdlog_def wr
            Let_def double_of_int_exact)
  qed
  from c d g u show ?thesis by blast
qed

section \<open>The run of the program\<close>

lemma main_eq:
  "main e w = main_body e [cpu_source, hdd_source] [main_fan] (construct_sources w)"
  by (simp add: main_def fan_fan_def add_driver_def main_fan_def Let_def)

lemma get_coeff_unit:
  assumes "thresholds_fit d" "get_coeff d w = Inr c"
  shows "unit_coeff c"
proof (cases "last_value (sources w (src d))")
  case None
  then show ?thesis using assms(2) by (simp add: get_coeff_def)
next
  case (Some v)
  from get_coeff_no_overflow(2) [OF Some] assms show ?thesis
    by (auto simp: thresholds_fit_def unit_coeff_def)
qed

lemma coefficients_unit:
  assumes "coefficients ds w acc = Inr vals"
    and "\<forall>d\<in>set ds. thresholds_fit d" and "\<forall>x\<in>set acc. unit_coeff x"
  shows "(\<forall>x\<in>set vals. unit_coeff x) \<and> length vals = length acc + length ds"
  using assms
proof (induction ds arbitrary: acc)
  case Nil
  then show ?case by simp
next
  case (Cons d ds)
  show ?case
  proof (cases "get_coeff d w")
    case (Inl e)
    then show ?thesis using Cons.prems(1) by simp
  next
    case (Inr c)
    have "thresholds_fit d" using Cons.prems(2) by simp
    then have c: "unit_coeff c" using Inr by (rule get_coeff_unit)
    have "coefficients ds w (acc @ [c]) = Inr vals" using Cons.prems(1) Inr by simp
    from Cons.IH [OF this] Cons.prems c show ?thesis by simp
  qed
qed

lemma max_element_from_mem: "max_element_from b xs \<in> set (b # xs)"
  by (induction xs arbitrary: b) (auto split: if_splits)

lemma max_element_unit:
  assumes "vals \<noteq> []" "\<forall>x\<in>set vals. unit_coeff x"
  shows "\<exists>y. max_element vals = Some (Finite y) \<and> 0 \<le> y \<and> y \<le> 1"
proof -
  obtain x xs where v: "vals = x # xs" using assms(1) by (cases vals) auto
  have "max_element_from x xs \<in> set vals" using max_element_from_mem [of x xs] v by simp
  then have "unit_coeff (max_element_from x xs)" using assms(2) by blast
  then show ?thesis by (auto simp: max_element_def v unit_coeff_def)
qed

lemma main_fan_fits: "\<forall>d\<in>set (drivers main_fan). thresholds_fit d"
  by (simp add: main_fan_def thresholds_fit_def)

lemma update_main_fan_defined: "update this main_fan env w \<noteq> Inl (Undefined_behaviour, w')"
proof (cases "coefficients (drivers main_fan) w []")
  case (Inl s)
  then show ?thesis by (simp add: update_def)
next
  case (Inr vals)
  from coefficients_unit [OF Inr main_fan_fits]
  have u: "\<forall>x\<in>set vals. unit_coeff x" and l: "length vals = 2"
    by (simp_all add: main_fan_def)
  from l have "vals \<noteq> []" by auto
  from max_element_unit [OF this u]
  obtain y where y: "max_element vals = Some (Finite y)" "0 \<le> y" "y \<le> 1" by blast
  have 1: "pwm_min main_fan < pwm_max main_fan" by (simp add: main_fan_def)
  have 2: "accum_fn main_fan = Some max_element" by (simp add: main_fan_def)
  from update_scale [OF 1 Inr 2 y, of this env]
  obtain duty where "update this main_fan env w =
       (case set_pwm this main_fan duty env (spdlog Trace (Got_coefficients vals) w) of
          Inl e \<Rightarrow> Inl e
        | Inr w2 \<Rightarrow> Inr (spdlog Info (Fan_set_to_pwm (pwm main_fan) (uint duty)) w2))"
    by blast
  then show ?thesis
    using set_pwm_defined [of this main_fan duty env "spdlog Trace (Got_coefficients vals) w" w']
    by (auto split: sum.splits)
qed

lemma update_fans_main_defined:
  "update_fans [main_fan] [0] env w \<noteq> Inl (Undefined_behaviour, w')"
  using update_main_fan_defined [of 0 env w w']
  by (auto split: sum.splits)

lemma main_loop_defined:
  "main_loop e srcs fans k w = Some r \<Longrightarrow> fans = [main_fan] \<Longrightarrow> r \<noteq> Inl (Undefined_behaviour, w')"
proof (induction arbitrary: w' rule: main_loop.raw_induct [rotated, consumes 1, case_names step])
  case (step ml e srcs fans k w r)
  show ?case
  proof (cases "g_signal_caught e k")
    case True
    then show ?thesis using step.hyps by auto
  next
    case False
    show ?thesis
    proof (cases "update_fans fans [0..<length fans] (io_loop e k) (update_sources (get e k) srcs w)")
      case (Inl x)
      then have "r = Inl x" using step.hyps False by simp
      then show ?thesis
        using Inl update_fans_main_defined [of "io_loop e k" "update_sources (get e k) srcs w" w']
          step.prems
        by auto
    next
      case (Inr w1)
      then have "ml e srcs fans (Suc k) (interruptible_sleep w1) = Some r"
        using step.hyps False by simp
      from step.IH [OF this step.prems] show ?thesis .
    qed
  qed
qed

lemma main_loop_returns:
  assumes "g_signal_caught e n" "k \<le> n"
  shows "\<exists>r. main_loop e srcs fans k w = Some r"
  using assms(2)
proof (induction "n - k" arbitrary: k w)
  case 0
  then have "k = n" by simp
  then show ?case using assms(1) by (subst main_loop.simps) simp
next
  case (Suc m)
  show ?case
  proof (cases "g_signal_caught e k")
    case True
    then show ?thesis by (subst main_loop.simps) simp
  next
    case False
    show ?thesis
    proof (cases "update_fans fans [0..<length fans] (io_loop e k) (update_sources (get e k) srcs w)")
      case (Inl x)
      then show ?thesis using False by (subst main_loop.simps) simp
    next
      case (Inr w1)
      have "m = n - Suc k" "Suc k \<le> n" using Suc.hyps(2) by simp_all
      from Suc.hyps(1) [OF this, of "interruptible_sleep w1"]
      show ?thesis using False Inr by (subst main_loop.simps) simp
    qed
  qed
qed

lemma main_loop_Inr:
  "main_loop e srcs fans k w = Some r \<Longrightarrow> r = Inr w2 \<Longrightarrow> \<exists>n. g_signal_caught e n"
proof (induction arbitrary: w2 rule: main_loop.raw_induct [rotated, consumes 1, case_names step])
  case (step ml e srcs fans k w r)
  show ?case
  proof (cases "g_signal_caught e k")
    case True
    then show ?thesis by blast
  next
    case False
    show ?thesis
    proof (cases "update_fans fans [0..<length fans] (io_loop e k) (update_sources (get e k) srcs w)")
      case (Inl x)
      then show ?thesis using step.hyps step.prems False by simp
    next
      case (Inr w1)
      then have "ml e srcs fans (Suc k) (interruptible_sleep w1) = Some r"
        using step.hyps False by simp
      from step.IH [OF this step.prems] show ?thesis .
    qed
  qed
qed

lemma reset_fans_single:
  "(\<exists>w1. reset 0 f env (spdlog Info Resetting_all_fans w) = Inr w1 \<and>
      reset_fans [f] env w = Inr w1) \<or>
   (\<exists>ex w1. reset 0 f env (spdlog Info Resetting_all_fans w) = Inl (Thrown ex, w1) \<and>
      reset_fans [f] env w = Inl (Thrown ex, spdlog Critical (Failed_to_reset_fan (name f)) w1))"
  using reset_cases [of 0 f env "spdlog Info Resetting_all_fans w"]
  by (auto simp: reset_fans_def)

lemma reset_fans_log:
  "\<exists>rest. log (final_world (reset_fans [f] env w)) = log w @ (Info, Resetting_all_fans) # rest"
  using reset_cases [of 0 f env "spdlog Info Resetting_all_fans w"]
  by (auto simp: reset_fans_def spdlog_def)

lemma try_block_cases:
  assumes "try_block e srcs [main_fan] w = Some t"
  shows "(\<exists>w0 w2. t = Inr (spdlog Info Signal_caught w2) \<and>
            reset_fans [main_fan] (io_initial e) w = Inr w0 \<and>
            main_loop e srcs [main_fan] 0 w0 = Some (Inr w2) \<and> (\<exists>n. g_signal_caught e n)) \<or>
         (\<exists>ex w1. t = Inl (Thrown ex, w1) \<and>
            (reset_fans [main_fan] (io_initial e) w = Inl (Thrown ex, w1) \<or>
             (\<exists>w0. reset_fans [main_fan] (io_initial e) w = Inr w0 \<and>
                   main_loop e srcs [main_fan] 0 w0 = Some (Inl (Thrown ex, w1)))))"
proof (cases "reset_fans [main_fan] (io_initial e) w")
  case (Inl x)
  then have t: "t = Inl x" using assms by (simp add: try_block_def)
  from reset_fans_single [of main_fan "io_initial e" w] Inl
  obtain ex w1 where "x = (Thrown ex, spdlog Critical (Failed_to_reset_fan (name main_fan)) w1)"
    by auto
  then show ?thesis using t Inl by blast
next
  case (Inr w0)
  show ?thesis
  proof (cases "main_loop e srcs [main_fan] 0 w0")
    case None
    then show ?thesis using assms Inr by (simp add: try_block_def)
  next
    case (Some r)
    show ?thesis
    proof (cases r)
      case (Inl x)
      obtain fl w2 where x: "x = (fl, w2)" by (cases x)
      have "fl \<noteq> Undefined_behaviour"
        using main_loop_defined [OF Some refl, of w2] Inl x by auto
      then obtain ex where "fl = Thrown ex" by (cases fl) auto
      then show ?thesis using assms Inr Some Inl x by (auto simp: try_block_def)
    next
      case r: (Inr w2)
      from main_loop_Inr [OF Some r] have "\<exists>n. g_signal_caught e n" .
      then show ?thesis using assms Inr Some r by (auto simp: try_block_def)
    qed
  qed
qed

lemma main_returns:
  assumes "g_signal_caught e n"
  shows "\<exists>out w'. main e w = Some (out, w')"
proof -
  let ?w = "construct_sources w"
  let ?srcs = "[cpu_source, hdd_source]"
  have "\<exists>t. try_block e ?srcs [main_fan] ?w = Some t"
  proof (cases "reset_fans [main_fan] (io_initial e) ?w")
    case (Inl x)
    then show ?thesis by (simp add: try_block_def)
  next
    case (Inr w1)
    from main_loop_returns [OF assms, of 0 ?srcs "[main_fan]" w1]
    obtain r where "main_loop e ?srcs [main_fan] 0 w1 = Some r" by auto
    then show ?thesis using Inr by (cases r) (simp_all add: try_block_def)
  qed
  then obtain t where t: "try_block e ?srcs [main_fan] ?w = Some t" ..
  show ?thesis
    unfolding main_eq main_body_def reset_and_return_def t
    by (auto simp: Let_def split: sum.splits failure.splits prod.splits)
qed

lemma main_result:
  assumes "main e w = Some (out, w')"
  shows "\<exists>rv w3.
        ((rv = 0 \<and>
          (\<exists>w0 w2. reset_fans [main_fan] (io_initial e) (construct_sources w) = Inr w0 \<and>
             main_loop e [cpu_source, hdd_source] [main_fan] 0 w0 = Some (Inr w2) \<and>
             w3 = spdlog Info Signal_caught w2) \<and>
          (\<exists>n. g_signal_caught e n)) \<or>
         (rv = 1 \<and>
          (\<exists>ex w1. w3 = spdlog Warn (Exception_caught (what ex)) w1 \<and>
             (reset_fans [main_fan] (io_initial e) (construct_sources w) = Inl (Thrown ex, w1) \<or>
              (\<exists>w0. reset_fans [main_fan] (io_initial e) (construct_sources w) = Inr w0 \<and>
                 main_loop e [cpu_source, hdd_source] [main_fan] 0 w0 =
                   Some (Inl (Thrown ex, w1))))))) \<and>
        ((out = Returned rv \<and>
          reset 0 main_fan (io_final e) (spdlog Info Resetting_all_fans w3) = Inr w') \<or>
         (\<exists>ex w4. out = Terminate ex \<and>
            reset 0 main_fan (io_final e) (spdlog Info Resetting_all_fans w3) =
              Inl (Thrown ex, w4) \<and>
            w' = spdlog Critical (Failed_to_reset_fan (name main_fan)) w4)) \<and>
        (\<exists>rest. log w' = log w3 @ (Info, Resetting_all_fans) # rest) \<and>
        (exit_status out = Some 0 \<longleftrightarrow> rv = 0 \<and> out = Returned 0) \<and>
        (\<exists>n. exit_status out = Some n)"
proof -
  let ?w = "construct_sources w"
  let ?srcs = "[cpu_source, hdd_source]"
  from assms obtain t where t: "try_block e ?srcs [main_fan] ?w = Some t"
    unfolding main_eq main_body_def by (cases "try_block e ?srcs [main_fan] ?w") auto
  define rv :: int where "rv = (case t of Inl x \<Rightarrow> 1 | Inr w2 \<Rightarrow> 0)"
  define w3 where "w3 = (case t of Inl (Thrown ex, w1) \<Rightarrow> spdlog Warn (Exception_caught (what ex)) w1
                          | Inl (Undefined_behaviour, w1) \<Rightarrow> w1 | Inr w2 \<Rightarrow> w2)"
  from try_block_cases [OF t]
  have first:
    "(rv = 0 \<and>
      (\<exists>w0 w2. reset_fans [main_fan] (io_initial e) ?w = Inr w0 \<and>
         main_loop e ?srcs [main_fan] 0 w0 = Some (Inr w2) \<and>
         w3 = spdlog Info Signal_caught w2) \<and>
      (\<exists>n. g_signal_caught e n)) \<or>
     (rv = 1 \<and>
      (\<exists>ex w1. w3 = spdlog Warn (Exception_caught (what ex)) w1 \<and>
         (reset_fans [main_fan] (io_initial e) ?w = Inl (Thrown ex, w1) \<or>
          (\<exists>w0. reset_fans [main_fan] (io_initial e) ?w = Inr w0 \<and>
             main_loop e ?srcs [main_fan] 0 w0 = Some (Inl (Thrown ex, w1))))))"
    by (elim disjE exE conjE) (auto simp: rv_def w3_def)
  have "main e w = reset_and_return e [main_fan] rv w3"
    using try_block_cases [OF t]
    unfolding main_eq main_body_def t by (auto simp: rv_def w3_def)
  then have m: "main e w =
      (case reset_fans [main_fan] (io_final e) w3 of
         Inl (Thrown ex, w4) \<Rightarrow> Some (Terminate ex, w4)
       | Inl (Undefined_behaviour, w4) \<Rightarrow> Some (Undefined, w4)
       | Inr w4 \<Rightarrow> Some (Returned rv, w4))"
    by (simp add: reset_and_return_def)
  from reset_fans_single [of main_fan "io_final e" w3]
  have second:
    "(out = Returned rv \<and>
      reset 0 main_fan (io_final e) (spdlog Info Resetting_all_fans w3) = Inr w') \<or>
     (\<exists>ex w4. out = Terminate ex \<and>
        reset 0 main_fan (io_final e) (spdlog Info Resetting_all_fans w3) = Inl (Thrown ex, w4) \<and>
        w' = spdlog Critical (Failed_to_reset_fan (name main_fan)) w4)"
    using assms unfolding m by auto
  have fw: "final_world (reset_fans [main_fan] (io_final e) w3) = w'"
    using assms reset_fans_single [of main_fan "io_final e" w3] unfolding m by auto
  from reset_fans_log [of main_fan "io_final e" w3]
  have third: "\<exists>rest. log w' = log w3 @ (Info, Resetting_all_fans) # rest"
    unfolding fw .
  have rv01: "rv = 0 \<or> rv = 1" using first by blast
  have fourth: "exit_status out = Some 0 \<longleftrightarrow> rv = 0 \<and> out = Returned 0"
    using second rv01 by auto
  have fifth: "\<exists>n. exit_status out = Some n" using second by auto
  from first second third fourth fifth show ?thesis by blast
qed

lemma clean_run_outcome: "map_option fst (main clean_run (readings None None)) = Some (Returned 0)"
  by code_simp

lemma failing_run_outcome:
  "map_option fst (main failing_run (readings None None)) = Some (Returned 1)"
  by code_simp

lemma stuck_run_outcome:
  "map_option fst (main stuck_run (readings None None)) = Some (Terminate (Set_pwm_failed 0 255))"
  by code_simp

text \<open>
  Claim C5. \<^verbatim>\<open>main\<close> ends whenever the flag is read as set at some point. However it ends,
  the \<^verbatim>\<open>try\<close> statement was left in one of two ways: normally, the first reset pass having
  succeeded and the loop having seen the flag, with \<open>rv = 0\<close> and \<open>Signal caught\<close> logged
  last; or by an exception, of the first reset pass or of \<^verbatim>\<open>set_pwm\<close> in the loop,
  with \<open>rv = 1\<close> and the exception logged last. In both cases the last reset pass follows:
  \<^verbatim>\<open>reset()\<close> is called on the fan, and the log of the final state is the log at the end of
  the \<^verbatim>\<open>try\<close> statement, which ends with the reason of the exit, followed by the entries
  of the pass. If that \<^verbatim>\<open>reset()\<close> returns, \<^verbatim>\<open>main\<close> returns \<open>rv\<close>; if it throws, the exception
  leaves \<^verbatim>\<open>main\<close> and the process is aborted. So the exit status is \<open>0\<close> exactly when the
  loop was cancelled and no reset failed, and a non-zero number in every other case.
\<close>

theorem main_exit:
  "((\<exists>n. g_signal_caught e n) \<longrightarrow> (\<exists>out w'. main e w = Some (out, w'))) \<and>
   (\<forall>out w'. main e w = Some (out, w') \<longrightarrow>
     (\<exists>rv w3.
        ((rv = 0 \<and>
          (\<exists>w0 w2. reset_fans [main_fan] (io_initial e) (construct_sources w) = Inr w0 \<and>
             main_loop e [cpu_source, hdd_source] [main_fan] 0 w0 = Some (Inr w2) \<and>
             w3 = spdlog Info Signal_caught w2) \<and>
          (\<exists>n. g_signal_caught e n)) \<or>
         (rv = 1 \<and>
          (\<exists>ex w1. w3 = spdlog Warn (Exception_caught (what ex)) w1 \<and>
             (reset_fans [main_fan] (io_initial e) (construct_sources w) = Inl (Thrown ex, w1) \<or>
              (\<exists>w0. reset_fans [main_fan] (io_initial e) (construct_sources w) = Inr w0 \<and>
                 main_loop e [cpu_source, hdd_source] [main_fan] 0 w0 =
                   Some (Inl (Thrown ex, w1))))))) \<and>
        ((out = Returned rv \<and>
          reset 0 main_fan (io_final e) (spdlog Info Resetting_all_fans w3) = Inr w') \<or>
         (\<exists>ex w4. out = Terminate ex \<and>
            reset 0 main_fan (io_final e) (spdlog Info Resetting_all_fans w3) =
              Inl (Thrown ex, w4) \<and>
            w' = spdlog Critical (Failed_to_reset_fan (name main_fan)) w4)) \<and>
        (\<exists>rest. log w' = log w3 @ (Info, Resetting_all_fans) # rest) \<and>
        (exit_status out = Some 0 \<longleftrightarrow> rv = 0 \<and> out = Returned 0) \<and>
        (\<exists>n. exit_status out = Some n)))"
  using main_returns [of e _ w] main_result [of e w] by blast

theorem main_exit_witness:
  "(\<exists>n. g_signal_caught clean_run n) \<and>
   (\<exists>w' w3. main clean_run (readings None None) = Some (Returned 0, w') \<and>
      reset 0 main_fan all_ok (spdlog Info Resetting_all_fans w3) = Inr w' \<and>
      (\<exists>w2. w3 = spdlog Info Signal_caught w2) \<and>
      exit_status (Returned 0) = Some 0) \<and>
   (\<exists>w' w3. main failing_run (readings None None) = Some (Returned 1, w') \<and>
      reset 0 main_fan all_ok (spdlog Info Resetting_all_fans w3) = Inr w' \<and>
      (\<exists>ex w1. w3 = spdlog Warn (Exception_caught (what ex)) w1) \<and>
      exit_status (Returned 1) = Some 1) \<and>
   (\<exists>w' w3 w4. main stuck_run (readings None None) =
        Some (Terminate (Set_pwm_failed 0 255), w') \<and>
      reset 0 main_fan pwm_open_fails (spdlog Info Resetting_all_fans w3) =
        Inl (Thrown (Set_pwm_failed 0 255), w4) \<and>
      exit_status (Terminate (Set_pwm_failed 0 255)) = Some 134)"
proof -
  let ?w = "readings None None"
  have sig: "\<exists>n. g_signal_caught clean_run n" "\<exists>n. g_signal_caught failing_run n"
    "\<exists>n. g_signal_caught stuck_run n"
    by (rule exI [of _ 1], simp add: clean_run_def failing_run_def stuck_run_def)+
  have 1: "\<exists>w' w3. main clean_run ?w = Some (Returned 0, w') \<and>
      reset 0 main_fan all_ok (spdlog Info Resetting_all_fans w3) = Inr w' \<and>
      (\<exists>w2. w3 = spdlog Info Signal_caught w2) \<and>
      exit_status (Returned 0) = Some 0"
  proof -
    note facts = main_exit [of clean_run ?w]
    from facts sig(1) obtain out w' where m: "main clean_run ?w = Some (out, w')"
      by blast
    then have out: "out = Returned 0" using clean_run_outcome by simp
    from facts m obtain rv w3 where
      a: "(rv = 0 \<and> (\<exists>w2. w3 = spdlog Info Signal_caught w2)) \<or> rv = 1"
      and b: "(out = Returned rv \<and>
            reset 0 main_fan (io_final clean_run) (spdlog Info Resetting_all_fans w3) = Inr w') \<or>
           (\<exists>ex w4. out = Terminate ex)"
      by blast
    from a b out have "reset 0 main_fan all_ok (spdlog Info Resetting_all_fans w3) = Inr w'"
      "\<exists>w2. w3 = spdlog Info Signal_caught w2"
      by (auto simp: clean_run_def)
    with m out show ?thesis by auto
  qed
  have 2: "\<exists>w' w3. main failing_run ?w = Some (Returned 1, w') \<and>
      reset 0 main_fan all_ok (spdlog Info Resetting_all_fans w3) = Inr w' \<and>
      (\<exists>ex w1. w3 = spdlog Warn (Exception_caught (what ex)) w1) \<and>
      exit_status (Returned 1) = Some 1"
  proof -
    note facts = main_exit [of failing_run ?w]
    from facts sig(2) obtain out w' where m: "main failing_run ?w = Some (out, w')"
      by blast
    then have out: "out = Returned 1" using failing_run_outcome by simp
    from facts m obtain rv w3 where
      a: "rv = 0 \<or> (rv = 1 \<and> (\<exists>ex w1. w3 = spdlog Warn (Exception_caught (what ex)) w1))"
      and b: "(out = Returned rv \<and>
            reset 0 main_fan (io_final failing_run) (spdlog Info Resetting_all_fans w3) = Inr w') \<or>
           (\<exists>ex w4. out = Terminate ex)"
      by blast
    from a b out have "reset 0 main_fan all_ok (spdlog Info Resetting_all_fans w3) = Inr w'"
      "\<exists>ex w1. w3 = spdlog Warn (Exception_caught (what ex)) w1"
      by (auto simp: clean_run_def failing_run_def)
    with m out show ?thesis by auto
  qed
  have 3: "\<exists>w' w3 w4. main stuck_run ?w = Some (Terminate (Set_pwm_failed 0 255), w') \<and>
      reset 0 main_fan pwm_open_fails (spdlog Info Resetting_all_fans w3) =
        Inl (Thrown (Set_pwm_failed 0 255), w4) \<and>
      exit_status (Terminate (Set_pwm_failed 0 255)) = Some 134"
  proof -
    note facts = main_exit [of stuck_run ?w]
    from facts sig(3) obtain out w' where m: "main stuck_run ?w = Some (out, w')"
      by blast
    then have out: "out = Terminate (Set_pwm_failed 0 255)" using stuck_run_outcome by simp
    from facts m obtain rv w3 where
      b: "(out = Returned rv \<and>
            reset 0 main_fan (io_final stuck_run) (spdlog Info Resetting_all_fans w3) = Inr w') \<or>
           (\<exists>ex w4. out = Terminate ex \<and>
              reset 0 main_fan (io_final stuck_run) (spdlog Info Resetting_all_fans w3) =
                Inl (Thrown ex, w4))"
      by blast
    from b out obtain w4 where
      "reset 0 main_fan pwm_open_fails (spdlog Info Resetting_all_fans w3) =
         Inl (Thrown (Set_pwm_failed 0 255), w4)"
      by (auto simp: clean_run_def failing_run_def stuck_run_def)
    with m out show ?thesis by auto
  qed
  from sig(1) 1 2 3 show ?thesis by blast
qed

end
